theory Spec2Isabelle
  imports Complex_Main "HOL-Library.Multiset"
begin

section \<open>Strings\<close>

text \<open>
  A JavaScript string is a sequence of UTF-16 code units, here natural numbers.
  \<open>units\<close> embeds an ASCII literal. \<open>strIncludes\<close> is
  \<open>String.prototype.includes\<close>: the needle occurs as a contiguous run of code units.

  \<open>String.prototype.toLowerCase\<close> is the runtime's Unicode case conversion (it sends
  \<open>A\<close> to \<open>a\<close>, and also the Kelvin sign U+212A to \<open>k\<close>); it is no code of the
  repository and the functions that call it take it as the parameter \<open>lower\<close>.
  \<open>asciiLower\<close> is the value of that conversion on strings of ASCII code units, where it
  changes the letters \<open>A\<close> to \<open>Z\<close> only; it is used to evaluate the functions at ASCII
  inputs.
\<close>

type_synonym jsString = "nat list"

definition units :: "string \<Rightarrow> jsString" where
  "units s = map of_char s"

definition asciiLower :: "jsString \<Rightarrow> jsString" where
  "asciiLower s = map (\<lambda>c. if 65 \<le> c \<and> c \<le> 90 then c + 32 else c) s"

fun startsWith :: "jsString \<Rightarrow> jsString \<Rightarrow> bool" where
  "startsWith s [] = True"
| "startsWith [] (p # ps) = False"
| "startsWith (c # cs) (p # ps) = (c = p \<and> startsWith cs ps)"

fun strIncludes :: "jsString \<Rightarrow> jsString \<Rightarrow> bool" where
  "strIncludes [] needle = (needle = [])"
| "strIncludes (c # cs) needle = (startsWith (c # cs) needle \<or> strIncludes cs needle)"


section \<open>Local classifier (sync route, \<open>EmailSyncer.classifyEmail\<close>)\<close>

text \<open>
  The three groups of tests of \<open>classifyEmail\<close>, each on the lower-cased subject,
  \<open>From\<close> field and sender address, in the order of the source.
\<close>

definition newsletterIndicators :: "jsString \<Rightarrow> jsString \<Rightarrow> jsString \<Rightarrow> bool" where
  "newsletterIndicators subj frm sender =
     (strIncludes subj (units ''newsletter'') \<or>
      strIncludes subj (units ''unsubscribe'') \<or>
      strIncludes frm (units ''newsletter'') \<or>
      strIncludes sender (units ''newsletter'') \<or>
      strIncludes sender (units ''marketing'') \<or>
      strIncludes subj (units ''weekly digest'') \<or>
      strIncludes subj (units ''monthly update''))"

definition promotionalIndicators :: "jsString \<Rightarrow> bool" where
  "promotionalIndicators subj =
     (strIncludes subj (units ''sale'') \<or>
      strIncludes subj (units ''discount'') \<or>
      strIncludes subj (units ''offer'') \<or>
      strIncludes subj (units ''deal'') \<or>
      strIncludes subj (units ''% off'') \<or>
      strIncludes subj (units ''free shipping'') \<or>
      strIncludes subj (units ''limited time'') \<or>
      strIncludes subj (units ''expires today'') \<or>
      strIncludes subj (units ''last chance''))"

definition socialIndicators :: "jsString \<Rightarrow> jsString \<Rightarrow> bool" where
  "socialIndicators frm sender =
     (strIncludes frm (units ''facebook'') \<or>
      strIncludes frm (units ''twitter'') \<or>
      strIncludes frm (units ''linkedin'') \<or>
      strIncludes frm (units ''instagram'') \<or>
      strIncludes frm (units ''tiktok'') \<or>
      strIncludes frm (units ''snapchat'') \<or>
      strIncludes frm (units ''youtube'') \<or>
      strIncludes frm (units ''pinterest'') \<or>
      strIncludes frm (units ''reddit'') \<or>
      strIncludes sender (units ''facebook.com'') \<or>
      strIncludes sender (units ''twitter.com'') \<or>
      strIncludes sender (units ''linkedin.com'') \<or>
      strIncludes sender (units ''instagram.com'') \<or>
      strIncludes sender (units ''tiktok.com'') \<or>
      strIncludes sender (units ''youtube.com''))"

definition classifyEmail ::
    "(jsString \<Rightarrow> jsString) \<Rightarrow> jsString \<Rightarrow> jsString \<Rightarrow> jsString \<Rightarrow> string" where
  "classifyEmail lower emailSubject emailFrom emailSender =
     (let subj = lower emailSubject;
          frm = lower emailFrom;
          sender = lower emailSender
      in if newsletterIndicators subj frm sender then ''newsletter''
         else if promotionalIndicators subj then ''promotional''
         else if socialIndicators frm sender then ''social''
         else ''unknown'')"

text \<open>
  A "noreply"-style sender: the lower-cased address contains \<open>noreply\<close> or
  \<open>no-reply\<close>. The source has no such test; the predicate only names the inputs the
  specification speaks about.
\<close>

definition noreplySender :: "(jsString \<Rightarrow> jsString) \<Rightarrow> jsString \<Rightarrow> bool" where
  "noreplySender lower emailSender =
     (strIncludes (lower emailSender) (units ''noreply'')
      \<or> strIncludes (lower emailSender) (units ''no-reply''))"


section \<open>Rate limiter (\<open>utils/rateLimiter\<close>)\<close>

text \<open>
  Times are integer milliseconds, as \<open>Date.now()\<close> returns them. The class keeps the
  list of recorded request times and its configuration.
\<close>

record RateLimiterConfig =
  maxRequests :: int
  windowMs :: int
  minDelayMs :: int

record RateLimiter =
  requests :: "int list"
  config :: RateLimiterConfig

text \<open>
  \<open>sleep(ms)\<close> is a bare \<open>setTimeout(resolve, ms)\<close>. The Node runtime that serves the
  routes runs a timer whose delay is not within \<open>1 .. 2147483647\<close> (hence also an
  infinite one) after 1 ms. \<open>timerDelay\<close> is the delay the timer really has.
\<close>

definition timerDelay :: "int \<Rightarrow> int" where
  "timerDelay ms = (if 1 \<le> ms \<and> ms \<le> 2147483647 then ms else 1)"

text \<open>
  \<open>waitTime\<close> of the source, for a non-empty in-window list:
  \<open>windowMs - (now - Math.min(...requests)) + 100\<close>.
\<close>

definition windowWaitTime :: "RateLimiterConfig \<Rightarrow> int \<Rightarrow> int list \<Rightarrow> int" where
  "windowWaitTime cfg now reqs = windowMs cfg - (now - Min (set reqs)) + 100"

text \<open>
  The first block of the source, as the time slept. When the limit test succeeds on an
  empty list (possible only for \<open>maxRequests \<le> 0\<close>), \<open>Math.min()\<close> of no arguments
  is \<open>Infinity\<close>, so \<open>waitTime\<close> is \<open>Infinity\<close>, the test \<open>waitTime > 0\<close> succeeds and
  the timer with an infinite delay runs after 1 ms.
\<close>

definition windowWait :: "RateLimiterConfig \<Rightarrow> int \<Rightarrow> int list \<Rightarrow> int" where
  "windowWait cfg now reqs =
     (if maxRequests cfg \<le> int (length reqs)
      then (if reqs = [] then 1
            else if windowWaitTime cfg now reqs > 0
                 then timerDelay (windowWaitTime cfg now reqs) else 0)
      else 0)"

text \<open>
  The second block of the source: when the filtered list is not empty and the time since
  its latest entry, measured from the \<open>now\<close> read at entry, is below \<open>minDelayMs\<close>, sleep
  for the difference. The result is the time slept.
\<close>

definition minDelayWait :: "RateLimiterConfig \<Rightarrow> int \<Rightarrow> int list \<Rightarrow> int" where
  "minDelayWait cfg now reqs =
     (if length reqs > 0
      then (let lastRequest = Max (set reqs);
                timeSinceLastRequest = now - lastRequest
            in if timeSinceLastRequest < minDelayMs cfg
               then timerDelay (minDelayMs cfg - timeSinceLastRequest) else 0)
      else 0)"

text \<open>
  \<open>waitIfNeeded()\<close>. \<open>now\<close> is the clock at entry and \<open>lag\<close> is whatever time passes
  during the call beyond the delays of the two timers, so the final \<open>Date.now()\<close> that is
  pushed is \<open>now + slept1 + slept2 + lag\<close>. The list is filtered once, at entry, and both
  blocks read the filtered list. The result is the recorded time and the new object.
\<close>

definition waitIfNeeded :: "int \<Rightarrow> nat \<Rightarrow> RateLimiter \<Rightarrow> int \<times> RateLimiter" where
  "waitIfNeeded now lag rl =
     (let cfg = config rl;
          reqs = filter (\<lambda>time. now - time < windowMs cfg) (requests rl);
          slept1 = windowWait cfg now reqs;
          slept2 = minDelayWait cfg now reqs;
          recorded = now + slept1 + slept2 + int lag
      in (recorded, rl\<lparr>requests := reqs @ [recorded]\<rparr>))"

text \<open>
  A sequence of calls that do not interleave, on one limiter. Each call is given by the
  time \<open>gap\<close> between the end of the previous call and its own entry, and by its \<open>lag\<close>.
  The result lists the recorded timestamps in order.
\<close>

fun runCalls :: "int \<Rightarrow> (nat \<times> nat) list \<Rightarrow> RateLimiter \<Rightarrow> int list \<times> RateLimiter" where
  "runCalls clock [] rl = ([], rl)"
| "runCalls clock ((gap, lag) # calls) rl =
     (case waitIfNeeded (clock + int gap) lag rl of
        (recorded, rl') \<Rightarrow>
          (case runCalls recorded calls rl' of
             (ts, rl'') \<Rightarrow> (recorded # ts, rl'')))"


section \<open>Persistence layer (\<open>lib/database\<close>)\<close>

subsection \<open>The local email table\<close>

text \<open>
  The sync route's \<open>EmailData\<close> interface. Dates are milliseconds since the epoch, as
  \<open>Date.getTime\<close> gives them. An optional property of the interface that is
  \<open>undefined\<close> is \<open>None\<close>; \<open>attachmentInfo\<close> is the serialised list.
\<close>

record SyncEmailData =
  gmailId :: string
  threadId :: "string option"
  subject :: jsString
  senderEmail :: jsString
  senderName :: jsString
  toAddress :: "jsString option"
  date :: int
  emailSize :: int
  labels :: "string list"
  snippet :: "jsString option"
  hasAttachments :: bool
  attachmentInfo :: "string option"
  category :: "string option"

text \<open>A row of the \<open>emails\<close> table: the owner, the message columns, the sync stamp.\<close>

record EmailRow =
  rowUser :: string
  rowData :: SyncEmailData
  lastSynced :: int

type_synonym EmailTable = "EmailRow list"

record SyncRange =
  startDate :: "int option"
  endDate :: int

text \<open>
  \<open>prisma.email.deleteMany({ where })\<close>: every row that satisfies the filter is removed and
  the number of removed rows is returned as \<open>count\<close>.
\<close>

definition deleteMany :: "(EmailRow \<Rightarrow> bool) \<Rightarrow> EmailTable \<Rightarrow> nat \<times> EmailTable" where
  "deleteMany wh rows = (length (filter wh rows), filter (\<lambda>r. \<not> wh r) rows)"

text \<open>
  \<open>cleanupEmailsInRange(userEmail, validGmailIds, syncRange)\<close>: a null start date is a full
  sync and uses the filter \<open>{userEmail, gmailId notIn}\<close>; otherwise the filter also
  requires \<open>date gte startDate\<close> and \<open>date lte endDate\<close>.
\<close>

definition cleanupEmailsInRange ::
    "string \<Rightarrow> string list \<Rightarrow> SyncRange \<Rightarrow> EmailTable \<Rightarrow> nat \<times> EmailTable" where
  "cleanupEmailsInRange userEmail validGmailIds syncRange rows =
     (case startDate syncRange of
        None \<Rightarrow>
          deleteMany (\<lambda>r. rowUser r = userEmail
                          \<and> gmailId (rowData r) \<notin> set validGmailIds) rows
      | Some start \<Rightarrow>
          deleteMany (\<lambda>r. rowUser r = userEmail
                          \<and> start \<le> date (rowData r) \<and> date (rowData r) \<le> endDate syncRange
                          \<and> gmailId (rowData r) \<notin> set validGmailIds) rows)"

text \<open>
  The dates that the date filter of \<open>cleanupEmailsInRange\<close> lets through: all of them
  for a null start, the closed interval otherwise.
\<close>

definition inSyncRange :: "SyncRange \<Rightarrow> int \<Rightarrow> bool" where
  "inSyncRange syncRange d =
     (case startDate syncRange of None \<Rightarrow> True | Some start \<Rightarrow> start \<le> d \<and> d \<le> endDate syncRange)"

text \<open>
  The \<open>update\<close> branch of the upsert writes \<open>{...email, labels, attachmentInfo,
  lastSynced}\<close>. A property that is \<open>undefined\<close> in the data is left as it is in the
  row (\<open>written\<close>); \<open>attachmentInfo\<close> is always written (the serialised list or
  \<open>null\<close>).
\<close>

definition written :: "'a option \<Rightarrow> 'a option \<Rightarrow> 'a option" where
  "written new old = (case new of None \<Rightarrow> old | Some v \<Rightarrow> Some v)"

definition updateData :: "SyncEmailData \<Rightarrow> SyncEmailData \<Rightarrow> SyncEmailData" where
  "updateData email old =
     \<lparr>gmailId = gmailId email,
      threadId = written (threadId email) (threadId old),
      subject = subject email,
      senderEmail = senderEmail email,
      senderName = senderName email,
      toAddress = written (toAddress email) (toAddress old),
      date = date email,
      emailSize = emailSize email,
      labels = labels email,
      snippet = written (snippet email) (snippet old),
      hasAttachments = hasAttachments email,
      attachmentInfo = attachmentInfo email,
      category = written (category email) (category old)\<rparr>"

text \<open>
  \<open>tx.email.upsert({ where: { gmailId }, update, create })\<close>: the row with this
  \<open>gmailId\<close> (a unique column, whoever owns the row) is updated and stamped with
  \<open>new Date()\<close>; when there is none, a row owned by \<open>userEmail\<close> is created. \<open>stamp\<close>
  gives the clock reading that goes with the upsert of each message.
\<close>

definition upsertEmail ::
    "string \<Rightarrow> (string \<Rightarrow> int) \<Rightarrow> SyncEmailData \<Rightarrow> EmailTable \<Rightarrow> EmailTable" where
  "upsertEmail userEmail stamp email rows =
     (if \<exists>r \<in> set rows. gmailId (rowData r) = gmailId email
      then map (\<lambda>r. if gmailId (rowData r) = gmailId email
                     then r\<lparr>rowData := updateData email (rowData r),
                            lastSynced := stamp (gmailId email)\<rparr>
                     else r) rows
      else rows @ [\<lparr>rowUser = userEmail, rowData = email, lastSynced = stamp (gmailId email)\<rparr>])"

text \<open>\<open>createOrUpdateEmails\<close>: one upsert per email, in order, inside one transaction.\<close>

definition createOrUpdateEmails ::
    "string \<Rightarrow> (string \<Rightarrow> int) \<Rightarrow> SyncEmailData list \<Rightarrow> EmailTable \<Rightarrow> EmailTable" where
  "createOrUpdateEmails userEmail stamp emails rows = fold (upsertEmail userEmail stamp) emails rows"

subsection \<open>Sync sessions and the legacy sync status\<close>

record SyncOptions =
  timeRange :: string
  excludeSpam :: bool
  excludeTrash :: bool
  maxEmailSize :: int

record SyncSession =
  sessionUser :: string
  sessionStatus :: string
  sessionOptions :: SyncOptions
  dateRangeStart :: "int option"
  dateRangeEnd :: "int option"
  emailsProcessed :: nat
  sessionTotalEmails :: "nat option"
  currentBatch :: nat
  totalBatches :: nat
  sessionError :: "string option"
  completedAt :: "int option"

text \<open>The \<open>updates\<close> argument of \<open>updateSyncSession\<close>: an absent property is \<open>None\<close>.\<close>

record SessionUpdates =
  newStatus :: "string option"
  newEmailsProcessed :: "nat option"
  newTotalEmails :: "nat option"
  newCurrentBatch :: "nat option"
  newTotalBatches :: "nat option"
  newErrorMessage :: "string option"
  newCompletedAt :: "int option"

definition noUpdates :: SessionUpdates where
  "noUpdates = \<lparr>newStatus = None, newEmailsProcessed = None, newTotalEmails = None,
                newCurrentBatch = None, newTotalBatches = None, newErrorMessage = None,
                newCompletedAt = None\<rparr>"

definition applySessionUpdates :: "SessionUpdates \<Rightarrow> SyncSession \<Rightarrow> SyncSession" where
  "applySessionUpdates u s =
     s\<lparr>sessionStatus := (case newStatus u of None \<Rightarrow> sessionStatus s | Some v \<Rightarrow> v),
       emailsProcessed := (case newEmailsProcessed u of None \<Rightarrow> emailsProcessed s | Some v \<Rightarrow> v),
       sessionTotalEmails := (case newTotalEmails u of None \<Rightarrow> sessionTotalEmails s | Some v \<Rightarrow> Some v),
       currentBatch := (case newCurrentBatch u of None \<Rightarrow> currentBatch s | Some v \<Rightarrow> v),
       totalBatches := (case newTotalBatches u of None \<Rightarrow> totalBatches s | Some v \<Rightarrow> v),
       sessionError := (case newErrorMessage u of None \<Rightarrow> sessionError s | Some v \<Rightarrow> Some v),
       completedAt := (case newCompletedAt u of None \<Rightarrow> completedAt s | Some v \<Rightarrow> Some v)\<rparr>"

record SyncStatus =
  syncInProgress :: bool
  lastSync :: "int option"
  statusTotalEmails :: nat
  statusOptions :: "SyncOptions option"
  statusError :: "string option"

text \<open>
  The \<open>data\<close> argument of \<open>updateSyncStatus\<close>. \<open>errorMessage: null\<close> is \<open>Some None\<close>, an
  absent \<open>errorMessage\<close> is \<open>None\<close>.
\<close>

record StatusData =
  dataLastSync :: "int option"
  dataTotalEmails :: "nat option"
  dataSyncInProgress :: "bool option"
  dataSyncOptions :: "SyncOptions option"
  dataErrorMessage :: "string option option"

definition noData :: StatusData where
  "noData = \<lparr>dataLastSync = None, dataTotalEmails = None, dataSyncInProgress = None,
             dataSyncOptions = None, dataErrorMessage = None\<rparr>"

definition applyStatusData :: "StatusData \<Rightarrow> SyncStatus \<Rightarrow> SyncStatus" where
  "applyStatusData d s =
     s\<lparr>syncInProgress := (case dataSyncInProgress d of None \<Rightarrow> syncInProgress s | Some v \<Rightarrow> v),
       lastSync := (case dataLastSync d of None \<Rightarrow> lastSync s | Some v \<Rightarrow> Some v),
       statusTotalEmails := (case dataTotalEmails d of None \<Rightarrow> statusTotalEmails s | Some v \<Rightarrow> v),
       statusOptions := (case dataSyncOptions d of None \<Rightarrow> statusOptions s | Some v \<Rightarrow> Some v),
       statusError := (case dataErrorMessage d of None \<Rightarrow> statusError s | Some v \<Rightarrow> v)\<rparr>"

text \<open>
  The database as the sync engine sees it. The legacy status table has one row per user;
  a user without a row is read as the row that the first upsert's \<open>create\<close> branch would
  start from.
\<close>

record Db =
  emails :: EmailTable
  sessions :: "string \<Rightarrow> SyncSession option"
  syncStatus :: "string \<Rightarrow> SyncStatus"

text \<open>
  \<open>createSyncSession\<close> inserts a row with status \<open>in_progress\<close>; the counters take the
  column defaults of the \<open>sync_sessions\<close> table.
\<close>

definition createSyncSession ::
    "string \<Rightarrow> string \<Rightarrow> SyncOptions \<Rightarrow> SyncRange \<Rightarrow> Db \<Rightarrow> Db" where
  "createSyncSession newId userEmail options dateRange db =
     db\<lparr>sessions := (sessions db)(newId \<mapsto>
          \<lparr>sessionUser = userEmail, sessionStatus = ''in_progress'', sessionOptions = options,
           dateRangeStart = startDate dateRange, dateRangeEnd = Some (endDate dateRange),
           emailsProcessed = 0, sessionTotalEmails = None, currentBatch = 0, totalBatches = 0,
           sessionError = None, completedAt = None\<rparr>)\<rparr>"

text \<open>
  \<open>updateSyncSession\<close> updates the row with the given id. The sync engine only ever
  updates the session it has created, so the case of an unknown id (which the ORM
  rejects) leaves the table as it is here.
\<close>

definition updateSyncSession :: "string \<Rightarrow> SessionUpdates \<Rightarrow> Db \<Rightarrow> Db" where
  "updateSyncSession sessId updates db =
     db\<lparr>sessions := (sessions db)(sessId := map_option (applySessionUpdates updates) (sessions db sessId))\<rparr>"

definition updateSyncStatus :: "string \<Rightarrow> StatusData \<Rightarrow> Db \<Rightarrow> Db" where
  "updateSyncStatus userEmail statusData db =
     db\<lparr>syncStatus := (syncStatus db)(userEmail := applyStatusData statusData (syncStatus db userEmail))\<rparr>"

text \<open>
  \<open>getSyncDateRange(options)\<close>: the end is \<open>now\<close>; the start is null for \<open>all\<close>, and
  otherwise a second \<open>new Date()\<close> (read at \<open>fresh\<close>) whose day, month or year is set
  from \<open>now\<close> by \<open>setDate\<close>, \<open>setMonth\<close> or \<open>setFullYear\<close>; that calendar arithmetic
  is the parameter \<open>back\<close>. A range string that matches no case of the switch leaves the
  second date as it is.
\<close>

definition getSyncDateRange ::
    "(string \<Rightarrow> int \<Rightarrow> int \<Rightarrow> int) \<Rightarrow> SyncOptions \<Rightarrow> int \<Rightarrow> int \<Rightarrow> SyncRange" where
  "getSyncDateRange back options now fresh =
     \<lparr>startDate =
        (if timeRange options \<noteq> ''all''
         then Some (if timeRange options \<in> set [''7d'', ''30d'', ''3m'', ''6m'', ''1y'']
                    then back (timeRange options) now fresh else fresh)
         else None),
      endDate = now\<rparr>"


section \<open>Sync engine (\<open>EmailSyncer\<close>)\<close>

text \<open>
  A thrown value: an \<open>Error\<close> with its message, or some other value.
  \<open>messageOr\<close> is \<open>e instanceof Error ? e.message : fallback\<close>.
\<close>

datatype exn = Error string | NonError

definition messageOr :: "exn \<Rightarrow> string \<Rightarrow> string" where
  "messageOr e fallback = (case e of Error m \<Rightarrow> m | NonError \<Rightarrow> fallback)"

text \<open>
  A message as the remote store returns it: the metadata as \<open>extractEmailData\<close> builds
  it, and whether its \<open>Date\<close> header is present and parsable. When it is not,
  \<open>parseDate\<close> falls back to \<open>new Date()\<close>, read at \<open>extractedAt\<close>.
\<close>

record RemoteMessage =
  metadata :: SyncEmailData
  dateHeaderValid :: bool

definition extractEmailData :: "int \<Rightarrow> RemoteMessage \<Rightarrow> SyncEmailData" where
  "extractEmailData extractedAt message =
     (if dateHeaderValid message then metadata message
      else (metadata message)\<lparr>date := extractedAt\<rparr>)"

text \<open>
  What the remote store answers for one message id: the message, an error with code 429
  followed by the outcome of the single retry (the message, or another error), or any
  other error (of the request, or of the extraction).
\<close>

datatype FetchOutcome =
    Fetched RemoteMessage
  | RateLimited "RemoteMessage option"
  | FetchFailed

fun fetched :: "int \<Rightarrow> FetchOutcome \<Rightarrow> SyncEmailData option" where
  "fetched extractedAt (Fetched m) = Some (extractEmailData extractedAt m)"
| "fetched extractedAt (RateLimited retry) = map_option (extractEmailData extractedAt) retry"
| "fetched extractedAt FetchFailed = None"

text \<open>
  \<open>processBatch\<close>: chunks of ten ids; every callback catches its own errors and yields
  the data or \<open>null\<close>; the nulls of a chunk are filtered out and the rest is appended in
  the order of the ids. \<open>extractedAt\<close> gives the clock reading at the extraction of each
  message.
\<close>

function processBatch ::
    "(string \<Rightarrow> FetchOutcome) \<Rightarrow> (string \<Rightarrow> int) \<Rightarrow> string list \<Rightarrow> SyncEmailData list" where
  "processBatch getMessage extractedAt messageIds =
     (if messageIds = [] then []
      else List.map_filter (\<lambda>messageId. fetched (extractedAt messageId) (getMessage messageId))
             (take 10 messageIds)
           @ processBatch getMessage extractedAt (drop 10 messageIds))"
  by pat_completeness auto
termination
  by (relation "measure (\<lambda>(g, x, ids). length ids)") auto

declare processBatch.simps [simp del]

text \<open>
  Where the body of the batch loop throws, if it does: in \<open>createOrUpdateEmails\<close> (its
  transaction then leaves the table unchanged), in the \<open>updateSyncSession\<close> that records
  the progress, or in the \<open>updateSyncStatus\<close> after it. (\<open>processBatch\<close> catches its own
  errors.)
\<close>

datatype BatchFault = PersistFault exn | ProgressFault exn | StatusFault exn


text \<open>
  The world of one sync run: the clock readings (\<open>clock\<close> is the \<open>now\<close> of
  \<open>getSyncDateRange\<close>, \<open>startClock\<close> its second \<open>new Date()\<close>, \<open>finishedAt\<close> the
  reading for \<open>completedAt\<close> and \<open>lastSync\<close>, \<open>extractedAt\<close> and \<open>syncedAt\<close> the readings
  at the extraction and at the upsert of each message), the calendar arithmetic, the id
  that the database gives the new session, the outcome of the paginated listing
  \<open>getAllMessageIds(buildSearchQuery(options))\<close>, the remote store's answer per message,
  and for each batch number the fault of the loop body, if any. The other database calls
  of \<open>syncEmails\<close> are taken to succeed.
\<close>

record SyncEnv =
  clock :: int
  startClock :: int
  finishedAt :: int
  extractedAt :: "string \<Rightarrow> int"
  syncedAt :: "string \<Rightarrow> int"
  calendarBack :: "string \<Rightarrow> int \<Rightarrow> int \<Rightarrow> int"
  freshSessionId :: string
  listing :: "exn + string list"
  getMessage :: "string \<Rightarrow> FetchOutcome"
  batchFault :: "nat \<Rightarrow> BatchFault option"

text \<open>\<open>this.processBatch(batch, options)\<close> in that world.\<close>

abbreviation fetchBatch :: "SyncEnv \<Rightarrow> string list \<Rightarrow> SyncEmailData list" where
  "fetchBatch env \<equiv> processBatch (getMessage env) (extractedAt env)"

record SyncResult =
  success :: bool
  totalEmails :: nat
  newEmails :: nat
  deletedEmails :: nat
  sessionId :: "string option"

text \<open>The variables of the batch loop: the two accumulators and the database.\<close>

record BatchLoop =
  totalProcessed :: nat
  allProcessedGmailIds :: "string list"
  loopDb :: Db

text \<open>
  The inner \<open>catch\<close>: the session is marked failed with the message and the current
  \<open>totalProcessed\<close>, and the error is thrown again.
\<close>

definition batchFailed :: "string \<Rightarrow> exn \<Rightarrow> BatchLoop \<Rightarrow> exn option \<times> BatchLoop" where
  "batchFailed sessId batchError st =
     (Some batchError,
      st\<lparr>loopDb := updateSyncSession sessId
          (noUpdates\<lparr>newStatus := Some ''failed'',
                     newErrorMessage := Some (messageOr batchError ''Batch processing failed''),
                     newEmailsProcessed := Some (totalProcessed st)\<rparr>) (loopDb st)\<rparr>)"

text \<open>
  The body of the \<open>for\<close> loop for the batch \<open>batch\<close> with number \<open>batchNumber\<close>. The
  result is the error that leaves the loop, if any, and the loop variables. The pause
  after every third batch changes no variable.
\<close>

definition syncBatch ::
    "SyncEnv \<Rightarrow> string \<Rightarrow> SyncOptions \<Rightarrow> string \<Rightarrow> nat \<Rightarrow> string list \<Rightarrow> BatchLoop
      \<Rightarrow> exn option \<times> BatchLoop" where
  "syncBatch env userEmail options sessId batchNumber batch st =
     (let batchEmails = fetchBatch env batch
      in case batchFault env batchNumber of
           Some (PersistFault batchError) \<Rightarrow> batchFailed sessId batchError st
         | fault \<Rightarrow>
             let db1 = (loopDb st)\<lparr>emails :=
                          createOrUpdateEmails userEmail (syncedAt env) batchEmails (emails (loopDb st))\<rparr>;
                 total = totalProcessed st + length batchEmails;
                 batchGmailIds = map gmailId batchEmails;
                 st1 = \<lparr>totalProcessed = total,
                        allProcessedGmailIds = allProcessedGmailIds st @ batchGmailIds,
                        loopDb = db1\<rparr>
             in case fault of
                  Some (ProgressFault batchError) \<Rightarrow> batchFailed sessId batchError st1
                | _ \<Rightarrow>
                    let st2 = st1\<lparr>loopDb := updateSyncSession sessId
                                   (noUpdates\<lparr>newCurrentBatch := Some batchNumber,
                                              newEmailsProcessed := Some total\<rparr>) db1\<rparr>
                    in case fault of
                         Some (StatusFault batchError) \<Rightarrow> batchFailed sessId batchError st2
                       | _ \<Rightarrow>
                           (None,
                            st2\<lparr>loopDb := updateSyncStatus userEmail
                                  (noData\<lparr>dataSyncInProgress := Some True,
                                          dataSyncOptions := Some options,
                                          dataTotalEmails := Some total\<rparr>) (loopDb st2)\<rparr>))"

text \<open>
  \<open>for (let i = 0; i < messageIds.length; i += batchSize)\<close> with
  \<open>messageIds.slice(i, i + batchSize)\<close>: the successive slices, and the loop over them
  with the batch number counted from \<open>batchNumber\<close>; an error ends the loop.
\<close>

function slices :: "nat \<Rightarrow> 'a list \<Rightarrow> 'a list list" where
  "slices n xs = (if n = 0 \<or> xs = [] then [] else take n xs # slices n (drop n xs))"
  by pat_completeness auto
termination
  by (relation "measure (\<lambda>(n, xs). length xs)") auto

declare slices.simps [simp del]

fun forBatches ::
    "(nat \<Rightarrow> 'a \<Rightarrow> 's \<Rightarrow> exn option \<times> 's) \<Rightarrow> nat \<Rightarrow> 'a list \<Rightarrow> 's \<Rightarrow> exn option \<times> 's" where
  "forBatches body batchNumber [] st = (None, st)"
| "forBatches body batchNumber (batch # batches) st =
     (case body batchNumber batch st of
        (Some error, st') \<Rightarrow> (Some error, st')
      | (None, st') \<Rightarrow> forBatches body (Suc batchNumber) batches st')"

definition syncBatches ::
    "SyncEnv \<Rightarrow> string \<Rightarrow> SyncOptions \<Rightarrow> string \<Rightarrow> string list \<Rightarrow> Db \<Rightarrow> exn option \<times> BatchLoop" where
  "syncBatches env userEmail options sessId messageIds db =
     forBatches (syncBatch env userEmail options sessId) 1 (slices 100 messageIds)
       \<lparr>totalProcessed = 0, allProcessedGmailIds = [], loopDb = db\<rparr>"

text \<open>
  The two ways out of the outer \<open>try\<close> with a result: the early return for an empty
  listing, and the return after the cleanup.
\<close>

definition syncNothing :: "SyncEnv \<Rightarrow> string \<Rightarrow> string \<Rightarrow> Db \<Rightarrow> (exn + SyncResult) \<times> Db" where
  "syncNothing env userEmail sessId db =
     (let db1 = updateSyncSession sessId
                  (noUpdates\<lparr>newStatus := Some ''completed'', newTotalEmails := Some 0,
                             newCompletedAt := Some (finishedAt env)\<rparr>) db;
          db2 = updateSyncStatus userEmail
                  (noData\<lparr>dataSyncInProgress := Some False,
                          dataLastSync := Some (finishedAt env),
                          dataTotalEmails := Some 0\<rparr>) db1
      in (Inr \<lparr>success = True, totalEmails = 0, newEmails = 0, deletedEmails = 0,
               sessionId = None\<rparr>, db2))"

definition syncFinish ::
    "SyncEnv \<Rightarrow> string \<Rightarrow> string \<Rightarrow> SyncRange \<Rightarrow> BatchLoop \<Rightarrow> (exn + SyncResult) \<times> Db" where
  "syncFinish env userEmail sessId syncRange st =
     (let deletedResult =
            cleanupEmailsInRange userEmail (allProcessedGmailIds st) syncRange (emails (loopDb st));
          db3 = (loopDb st)\<lparr>emails := snd deletedResult\<rparr>;
          db4 = updateSyncSession sessId
                  (noUpdates\<lparr>newStatus := Some ''completed'',
                             newCompletedAt := Some (finishedAt env)\<rparr>) db3;
          db5 = updateSyncStatus userEmail
                  (noData\<lparr>dataSyncInProgress := Some False,
                          dataLastSync := Some (finishedAt env),
                          dataTotalEmails := Some (totalProcessed st),
                          dataErrorMessage := Some None\<rparr>) db4
      in (Inr \<lparr>success = True, totalEmails = totalProcessed st,
               newEmails = totalProcessed st, deletedEmails = fst deletedResult,
               sessionId = Some sessId\<rparr>, db5))"

text \<open>The body of the outer \<open>try\<close> of \<open>syncEmails\<close>.\<close>

definition syncBody ::
    "SyncEnv \<Rightarrow> string \<Rightarrow> SyncOptions \<Rightarrow> string \<Rightarrow> SyncRange \<Rightarrow> Db \<Rightarrow> (exn + SyncResult) \<times> Db" where
  "syncBody env userEmail options sessId syncRange db =
     (case listing env of
        Inl error \<Rightarrow> (Inl error, db)
      | Inr messageIds \<Rightarrow>
          if length messageIds = 0 then syncNothing env userEmail sessId db
          else
            (let totalBatchCount = (length messageIds + 99) div 100;
                 db1 = updateSyncSession sessId
                         (noUpdates\<lparr>newTotalEmails := Some (length messageIds),
                                    newTotalBatches := Some totalBatchCount\<rparr>) db
             in case syncBatches env userEmail options sessId messageIds db1 of
                  (Some error, st) \<Rightarrow> (Inl error, loopDb st)
                | (None, st) \<Rightarrow> syncFinish env userEmail sessId syncRange st))"

text \<open>
  \<open>syncEmails(options)\<close> for the user \<open>userEmail\<close>: the session is created and the legacy
  status set before the \<open>try\<close>; the outer \<open>catch\<close> marks the session failed, resets the
  legacy status and throws the error again. The result is what the call returns or throws,
  and the database it leaves.
\<close>

definition syncEmails :: "SyncEnv \<Rightarrow> string \<Rightarrow> SyncOptions \<Rightarrow> Db \<Rightarrow> (exn + SyncResult) \<times> Db" where
  "syncEmails env userEmail options db =
     (let syncRange = getSyncDateRange (calendarBack env) options (clock env) (startClock env);
          sessId = freshSessionId env;
          db1 = createSyncSession sessId userEmail options syncRange db;
          db2 = updateSyncStatus userEmail
                  (noData\<lparr>dataSyncInProgress := Some True, dataSyncOptions := Some options,
                          dataErrorMessage := Some None\<rparr>) db1
      in case syncBody env userEmail options sessId syncRange db2 of
           (Inr result, db3) \<Rightarrow> (Inr result, db3)
         | (Inl error, db3) \<Rightarrow>
             (let db4 = updateSyncSession sessId
                          (noUpdates\<lparr>newStatus := Some ''failed'',
                                     newErrorMessage := Some (messageOr error ''Unknown sync error'')\<rparr>) db3;
                  db5 = updateSyncStatus userEmail
                          (noData\<lparr>dataSyncInProgress := Some False,
                                  dataErrorMessage := Some (Some (messageOr error ''Unknown sync error''))\<rparr>) db4
              in (Inl error, db5)))"


section \<open>Hybrid analysis: which stored messages go to AI (analyze route)\<close>

text \<open>
  \<open>canClassifyWithoutAI(email)\<close> of \<open>GmailAnalyzer\<close>, on a row of the local table: it
  reads the lower-cased subject and sender address and nothing else (not the category
  stored at sync time).
\<close>

definition canClassifyWithoutAI :: "(jsString \<Rightarrow> jsString) \<Rightarrow> EmailRow \<Rightarrow> bool" where
  "canClassifyWithoutAI lower email =
     (let subj = lower (subject (rowData email));
          sender = lower (senderEmail (rowData email))
      in (strIncludes subj (units ''newsletter'') \<and> strIncludes subj (units ''unsubscribe'')) \<or>
         strIncludes sender (units ''newsletter'') \<or>
         strIncludes sender (units ''marketing'') \<or>
         (strIncludes subj (units ''sale'') \<and> strIncludes subj (units ''% off'')) \<or>
         strIncludes subj (units ''limited time offer'') \<or>
         strIncludes subj (units ''expires today''))"

text \<open>
  The partition at the start of \<open>runHybridCleanupAnalysis\<close>: a row that passes
  \<open>canClassifyWithoutAI\<close> gets a local analysis, every other row is pushed to
  \<open>needsAI\<close>, in the order of the rows.
\<close>

definition preClassifiedRows :: "(jsString \<Rightarrow> jsString) \<Rightarrow> EmailRow list \<Rightarrow> EmailRow list" where
  "preClassifiedRows lower rows = filter (canClassifyWithoutAI lower) rows"

definition needsAI :: "(jsString \<Rightarrow> jsString) \<Rightarrow> EmailRow list \<Rightarrow> EmailRow list" where
  "needsAI lower rows = filter (\<lambda>email. \<not> canClassifyWithoutAI lower email) rows"


section \<open>Analysis engine (\<open>GmailAnalyzer\<close>)\<close>

subsection \<open>JavaScript values\<close>

text \<open>
  A value as \<open>JSON.parse\<close> builds it. An object is the list of its own properties, one
  entry per key. A property that is absent (\<open>undefined\<close>) is \<open>None\<close> where it is read.
\<close>

datatype json =
    JNull
  | JBool bool
  | JNum real
  | JStr jsString
  | JArr "json list"
  | JObj "(jsString \<times> json) list"

type_synonym jsObject = "(jsString \<times> json) list"

definition getProp :: "jsObject \<Rightarrow> string \<Rightarrow> json option" where
  "getProp obj name = map_of obj (units name)"

text \<open>\<open>v === 'literal'\<close>: true for that string and for nothing else.\<close>

definition strictEquals :: "json option \<Rightarrow> string \<Rightarrow> bool" where
  "strictEquals v literal = (v = Some (JStr (units literal)))"

text \<open>
  The analyzer's \<open>EmailData\<close> interface. Its numbers are of type \<open>'n\<close>: the operations
  on them are those of the runtime and are passed where they are used.
\<close>

record 'n EmailData =
  dataId :: jsString
  dataThreadId :: jsString
  dataSubject :: jsString
  dataFrom :: jsString
  dataTo :: jsString
  dataDate :: jsString
  dataSize :: 'n
  dataLabels :: "jsString list"
  dataSnippet :: jsString
  dataHasAttachments :: bool
  attachmentSizes :: "(jsString \<times> 'n) list"


subsection \<open>Parsing the classifier's answer (\<open>parseBatchAnalysisResult\<close>)\<close>

text \<open>
  \<open>response.replace(/```json\n?|\n?```/g, '')\<close>. The backtick is the code unit 96 and the
  line feed is 10. At each position the first alternative is tried first: three backticks
  and \<open>json\<close>, with a following line feed if there is one; then the second: three
  backticks, or a line feed and three backticks. A match is removed and the scan goes on
  after it; where nothing matches the code unit is kept.
\<close>

definition backticks :: jsString where
  "backticks = [96, 96, 96]"

function stripFences :: "jsString \<Rightarrow> jsString" where
  "stripFences s =
     (if s = [] then []
      else if startsWith s (backticks @ units ''json'')
      then stripFences (drop (if startsWith (drop 7 s) [10] then 8 else 7) s)
      else if startsWith s (10 # backticks) then stripFences (drop 4 s)
      else if startsWith s backticks then stripFences (drop 3 s)
      else hd s # stripFences (tl s))"
  by pat_completeness auto
termination
  by (relation "measure length") auto

declare stripFences.simps [simp del]

text \<open>
  \<open>String.prototype.trim\<close> removes the white space and line terminators of ECMAScript
  at both ends.
\<close>

definition whiteSpace :: "nat \<Rightarrow> bool" where
  "whiteSpace c =
     (c \<in> set [9, 10, 11, 12, 13, 32, 160, 5760, 8232, 8233, 8239, 8287, 12288, 65279]
      \<or> (8192 \<le> c \<and> c \<le> 8202))"

definition trim :: "jsString \<Rightarrow> jsString" where
  "trim s = rev (dropWhile whiteSpace (rev (dropWhile whiteSpace s)))"

text \<open>The errors that the parsing can raise.\<close>

datatype jsError = SyntaxError | TypeError | RangeError

text \<open>\<open>getDefaultAnalysis()\<close>.\<close>

definition getDefaultAnalysis :: json where
  "getDefaultAnalysis =
     JObj [(units ''category'', JStr (units ''unknown'')),
           (units ''priority'', JStr (units ''low'')),
           (units ''cleanupRecommendation'', JStr (units ''keep'')),
           (units ''reasoning'',
              JStr (units ''Analysis failed - keeping for safety until manual review'')),
           (units ''spaceImpact'', JStr (units ''low'')),
           (units ''confidence'', JStr (units ''low''))]"

text \<open>
  The conversion of a value to a boolean: \<open>null\<close>, \<open>false\<close>, \<open>0\<close> and the empty
  string are falsy.
\<close>

fun truthy :: "json \<Rightarrow> bool" where
  "truthy JNull = False"
| "truthy (JBool b) = b"
| "truthy (JNum x) = (x \<noteq> 0)"
| "truthy (JStr s) = (s \<noteq> [])"
| "truthy (JArr items) = True"
| "truthy (JObj props) = True"

text \<open>
  \<open>r.id === i + 1\<close>, the test of \<open>parsed.find\<close>: reading \<open>id\<close> from \<open>null\<close> raises a
  \<open>TypeError\<close>; a number, boolean, string or array has no such property.
\<close>

fun hasId :: "nat \<Rightarrow> json \<Rightarrow> jsError + bool" where
  "hasId n JNull = Inl TypeError"
| "hasId n (JObj props) = Inr (getProp props ''id'' = Some (JNum (real n)))"
| "hasId n r = Inr False"

text \<open>\<open>parsed.find(r => r.id === n)\<close>: the first entry that passes the test.\<close>

fun findById :: "nat \<Rightarrow> json list \<Rightarrow> jsError + json option" where
  "findById n [] = Inr None"
| "findById n (r # rs) =
     (case hasId n r of
        Inl error \<Rightarrow> Inl error
      | Inr True \<Rightarrow> Inr (Some r)
      | Inr False \<Rightarrow> findById n rs)"

text \<open>The decimal digits of an array index, as a property key.\<close>

function decimal :: "nat \<Rightarrow> jsString" where
  "decimal n = (if n < 10 then [48 + n] else decimal (n div 10) @ [48 + n mod 10])"
  by pat_completeness auto
termination
  by (relation "measure (\<lambda>n. n)") auto

declare decimal.simps [simp del]

text \<open>
  The own enumerable properties of a value that is not \<open>null\<close>: those of an object, the
  indexed entries of an array, the indexed code units of a string, none for a number or a
  boolean. \<open>const { id, ...cleanResult } = result\<close> copies them all but \<open>id\<close>.
\<close>

fun ownProps :: "json \<Rightarrow> jsObject" where
  "ownProps (JObj props) = props"
| "ownProps (JArr items) = map (\<lambda>i. (decimal i, items ! i)) [0..<length items]"
| "ownProps (JStr s) = map (\<lambda>i. (decimal i, JStr [s ! i])) [0..<length s]"
| "ownProps v = []"

definition withoutId :: "json \<Rightarrow> json" where
  "withoutId result = JObj (filter (\<lambda>(key, v). key \<noteq> units ''id'') (ownProps result))"

text \<open>
  The body of the \<open>for\<close> loop for the position \<open>i\<close>:
  \<open>parsed.find(r => r.id === i + 1) || parsed[i]\<close>, then the clean copy of a truthy
  result and the default analysis otherwise.
\<close>

definition resultAt :: "json list \<Rightarrow> nat \<Rightarrow> jsError + json" where
  "resultAt parsed i =
     (case findById (i + 1) parsed of
        Inl error \<Rightarrow> Inl error
      | Inr (Some r) \<Rightarrow> Inr (withoutId r)
      | Inr None \<Rightarrow>
          Inr (if i < length parsed \<and> truthy (parsed ! i) then withoutId (parsed ! i)
               else getDefaultAnalysis))"

text \<open>The loop \<open>for (let i = 0; i < expectedCount; i++)\<close> from position \<open>i\<close> on.\<close>

fun collectResults :: "json list \<Rightarrow> nat \<Rightarrow> nat \<Rightarrow> jsError + json list" where
  "collectResults parsed i 0 = Inr []"
| "collectResults parsed i (Suc remaining) =
     (case resultAt parsed i of
        Inl error \<Rightarrow> Inl error
      | Inr result \<Rightarrow>
          (case collectResults parsed (Suc i) remaining of
             Inl error \<Rightarrow> Inl error
           | Inr results \<Rightarrow> Inr (result # results)))"

text \<open>
  \<open>Array(expectedCount).fill(v)\<close>: an array cannot have more than \<open>2\<^sup>3\<^sup>2 - 1\<close> entries,
  and \<open>Array(n)\<close> raises a \<open>RangeError\<close> for a greater \<open>n\<close>.
\<close>

definition arrayFill :: "nat \<Rightarrow> json \<Rightarrow> jsError + json list" where
  "arrayFill n v = (if n \<le> 4294967295 then Inr (replicate n v) else Inl RangeError)"

text \<open>
  \<open>parseBatchAnalysisResult(response, expectedCount)\<close>. \<open>jsonParse\<close> is the runtime's
  \<open>JSON.parse\<close>, \<open>None\<close> when it raises a \<open>SyntaxError\<close>. \<open>expectedCount\<close> is a number of
  emails (\<open>emails.length\<close> at every call). Whatever is raised inside the \<open>try\<close> (by
  \<open>JSON.parse\<close>, by \<open>find\<close>, by the \<open>push\<close> that would make the array too long, by
  \<open>Array\<close>) is caught, and the \<open>catch\<close> block fills an array with the default analysis,
  outside any \<open>try\<close>.
\<close>

definition parseAttempt :: "(jsString \<Rightarrow> json option) \<Rightarrow> jsString \<Rightarrow> nat \<Rightarrow> jsError + json list" where
  "parseAttempt jsonParse response expectedCount =
     (let cleanResponse = trim (stripFences response)
      in case jsonParse cleanResponse of
           None \<Rightarrow> Inl SyntaxError
         | Some (JArr parsed) \<Rightarrow>
             (if expectedCount \<le> 4294967295 then collectResults parsed 0 expectedCount
              else (case collectResults parsed 0 4294967296 of
                      Inl error \<Rightarrow> Inl error | Inr results \<Rightarrow> Inl RangeError))
         | Some parsed \<Rightarrow> arrayFill expectedCount parsed)"

definition parseBatchAnalysisResult ::
    "(jsString \<Rightarrow> json option) \<Rightarrow> jsString \<Rightarrow> nat \<Rightarrow> jsError + json list" where
  "parseBatchAnalysisResult jsonParse response expectedCount =
     (case parseAttempt jsonParse response expectedCount of
        Inr results \<Rightarrow> Inr results
      | Inl error \<Rightarrow> arrayFill expectedCount getDefaultAnalysis)"

text \<open>
  The spec's words for an array answer: each position is matched by \<open>id == position + 1\<close>,
  falling back to the positional array index, then to the default result.
\<close>

definition idOf :: "json \<Rightarrow> json option" where
  "idOf r = (case r of JObj props \<Rightarrow> getProp props ''id'' | _ \<Rightarrow> None)"

definition specResultAt :: "json list \<Rightarrow> nat \<Rightarrow> json" where
  "specResultAt parsed i =
     (case find (\<lambda>r. idOf r = Some (JNum (real (i + 1)))) parsed of
        Some r \<Rightarrow> withoutId r
      | None \<Rightarrow> if i < length parsed \<and> truthy (parsed ! i) then withoutId (parsed ! i)
                else getDefaultAnalysis)"


subsection \<open>Report aggregation (\<open>generateReport\<close>)\<close>

text \<open>
  An element of \<open>analyses\<close>: the analysis engine builds it as
  \<open>{ emailId, ...analysis, originalEmail }\<close>, so \<open>originalEmail\<close> is always the email's
  \<open>EmailData\<close>, and the other own properties are whatever the classifier returned.
\<close>

record 'n Analysis =
  analysisProps :: jsObject
  originalEmail :: "'n EmailData"

record 'n Candidate =
  candId :: jsString
  candSubject :: jsString
  candFrom :: jsString
  candDate :: jsString
  candSize :: 'n
  candCategory :: "json option"
  candReasoning :: "json option"
  candConfidence :: "json option"

record 'n NewsletterSender =
  nsSenderEmail :: jsString
  nsSenderName :: jsString
  nsCount :: nat
  nsTotalSize :: 'n
  nsCategory :: "json option"

record 'n Summary =
  summaryTotalEmails :: nat
  summaryDeletionCandidates :: nat
  summaryKeepCandidates :: nat
  summaryNewsletterSenders :: nat
  totalSize :: 'n
  potentialSavings :: 'n

record ('n, 'c, 't) Report =
  summary :: "'n Summary"
  deletionCandidates :: "'n Candidate list"
  keepCandidates :: "'n Candidate list"
  newsletterSenders :: "'n NewsletterSender list"
  reportConfig :: 'c
  createdAt :: jsString
  reportTokenUsage :: "'t option"

text \<open>The object pushed on either candidate list.\<close>

definition candidate :: "'n Analysis \<Rightarrow> 'n Candidate" where
  "candidate analysis =
     (let email = originalEmail analysis
      in \<lparr>candId = dataId email, candSubject = dataSubject email, candFrom = dataFrom email,
          candDate = dataDate email, candSize = dataSize email,
          candCategory = getProp (analysisProps analysis) ''category'',
          candReasoning = getProp (analysisProps analysis) ''reasoning'',
          candConfidence = getProp (analysisProps analysis) ''confidence''\<rparr>)"

text \<open>
  The variables that the \<open>forEach\<close> of \<open>generateReport\<close> updates. The \<open>Map\<close> of
  newsletter senders is the list of its entries in insertion order.
\<close>

record 'n Tally =
  deletionList :: "'n Candidate list"
  keepList :: "'n Candidate list"
  senderMap :: "(jsString \<times> 'n NewsletterSender) list"
  sizeSum :: 'n
  savingsSum :: 'n

definition trackSender ::
    "('n \<Rightarrow> 'n \<Rightarrow> 'n) \<Rightarrow> jsString \<Rightarrow> jsString \<Rightarrow> 'n \<Rightarrow> json option
      \<Rightarrow> (jsString \<times> 'n NewsletterSender) list \<Rightarrow> (jsString \<times> 'n NewsletterSender) list" where
  "trackSender jsPlus sender name bytes cat senders =
     (if sender \<in> fst ` set senders
      then map (\<lambda>(key, existing).
                  if key = sender
                  then (key, existing\<lparr>nsCount := nsCount existing + 1,
                                      nsTotalSize := jsPlus (nsTotalSize existing) bytes\<rparr>)
                  else (key, existing)) senders
      else senders @ [(sender,
                       \<lparr>nsSenderEmail = sender, nsSenderName = name, nsCount = 1,
                        nsTotalSize = bytes, nsCategory = cat\<rparr>)])"

text \<open>
  The callback of the \<open>forEach\<close>. \<open>jsPlus\<close> is the runtime's \<open>+\<close> on the sizes;
  \<open>extractSenderEmail\<close> and \<open>extractSenderName\<close> are the analyzer's two functions of the
  From field, which only the newsletter senders depend on.
\<close>

definition tally ::
    "('n \<Rightarrow> 'n \<Rightarrow> 'n) \<Rightarrow> (jsString \<Rightarrow> jsString) \<Rightarrow> (jsString \<Rightarrow> jsString)
      \<Rightarrow> 'n Analysis \<Rightarrow> 'n Tally \<Rightarrow> 'n Tally" where
  "tally jsPlus extractSenderEmail extractSenderName analysis t =
     (let email = originalEmail analysis;
          recommendation = getProp (analysisProps analysis) ''cleanupRecommendation'';
          cat = getProp (analysisProps analysis) ''category'';
          t1 = t\<lparr>sizeSum := jsPlus (sizeSum t) (dataSize email)\<rparr>;
          t2 = (if strictEquals recommendation ''delete'' \<or> strictEquals recommendation ''archive''
                then t1\<lparr>savingsSum := jsPlus (savingsSum t1) (dataSize email),
                        deletionList := deletionList t1 @ [candidate analysis]\<rparr>
                else if strictEquals recommendation ''keep''
                then t1\<lparr>keepList := keepList t1 @ [candidate analysis]\<rparr>
                else t1)
      in if strictEquals cat ''newsletter'' \<or> strictEquals cat ''promotional''
         then t2\<lparr>senderMap := trackSender jsPlus (extractSenderEmail (dataFrom email))
                                 (extractSenderName (dataFrom email)) (dataSize email) cat
                                 (senderMap t2)\<rparr>
         else t2)"

text \<open>
  \<open>generateReport(analyses, config, tokenUsage)\<close>. \<open>jsZero\<close> and \<open>jsPlus\<close> are the runtime's
  \<open>0\<close> and \<open>+\<close>; \<open>newestFirst\<close> is \<open>Array.prototype.sort\<close> with the comparator on the
  parsed dates (for dates that do not parse the comparator yields \<open>NaN\<close> and the order is
  the runtime's); \<open>now\<close> is \<open>new Date().toISOString()\<close>. The senders are sorted by
  descending count, and the sort is stable.
\<close>

definition generateReport ::
    "'n \<Rightarrow> ('n \<Rightarrow> 'n \<Rightarrow> 'n) \<Rightarrow> (jsString \<Rightarrow> jsString) \<Rightarrow> (jsString \<Rightarrow> jsString)
      \<Rightarrow> ('n Candidate list \<Rightarrow> 'n Candidate list) \<Rightarrow> jsString
      \<Rightarrow> 'n Analysis list \<Rightarrow> 'c \<Rightarrow> 't option \<Rightarrow> ('n, 'c, 't) Report" where
  "generateReport jsZero jsPlus extractSenderEmail extractSenderName newestFirst now
       analyses cfg tokenUsage =
     (let t = fold (tally jsPlus extractSenderEmail extractSenderName) analyses
                \<lparr>deletionList = [], keepList = [], senderMap = [], sizeSum = jsZero,
                 savingsSum = jsZero\<rparr>;
          deletion = newestFirst (deletionList t);
          keep = newestFirst (keepList t)
      in \<lparr>summary =
            \<lparr>summaryTotalEmails = length analyses,
             summaryDeletionCandidates = length deletion,
             summaryKeepCandidates = length keep,
             summaryNewsletterSenders = length (senderMap t),
             totalSize = sizeSum t,
             potentialSavings = savingsSum t\<rparr>,
          deletionCandidates = deletion,
          keepCandidates = keep,
          newsletterSenders = sort_key (\<lambda>sender. - int (nsCount sender)) (map snd (senderMap t)),
          reportConfig = cfg,
          createdAt = now,
          reportTokenUsage = tokenUsage\<rparr>)"

text \<open>\<open>analysis.cleanupRecommendation === 'literal'\<close>.\<close>

definition recommends :: "'n Analysis \<Rightarrow> string \<Rightarrow> bool" where
  "recommends analysis literal =
     strictEquals (getProp (analysisProps analysis) ''cleanupRecommendation'') literal"


section \<open>Sample data\<close>

definition sampleEmail :: "string \<Rightarrow> int \<Rightarrow> SyncEmailData" where
  "sampleEmail g d =
     \<lparr>gmailId = g, threadId = None, subject = units ''Hello'', senderEmail = units ''a@b.c'',
      senderName = units ''A'', toAddress = Some (units ''me@b.c''), date = d, emailSize = 1000,
      labels = [''INBOX''], snippet = Some [], hasAttachments = False,
      attachmentInfo = Some ''[]'', category = Some ''unknown''\<rparr>"

definition sampleRow :: "string \<Rightarrow> string \<Rightarrow> int \<Rightarrow> EmailRow" where
  "sampleRow u g d = \<lparr>rowUser = u, rowData = sampleEmail g d, lastSynced = 0\<rparr>"

text \<open>A stored message with the given subject, From field and sender address.\<close>

definition storedMessage :: "string \<Rightarrow> string \<Rightarrow> EmailRow" where
  "storedMessage subj sender =
     \<lparr>rowUser = ''me@example.com'',
      rowData = (sampleEmail ''m1'' 0)\<lparr>subject := units subj, senderEmail := units sender\<rparr>,
      lastSynced = 0\<rparr>"


text \<open>
  A sync world for the examples: the listing yields \<open>ids\<close>, every message is fetched at
  the first attempt with a valid \<open>Date\<close> header of 1699990000000, the run starts at
  \<open>now\<close>, and \<open>7d\<close> is seven days of 86400000 ms.
\<close>

definition sampleOptions :: SyncOptions where
  "sampleOptions = \<lparr>timeRange = ''7d'', excludeSpam = True, excludeTrash = True, maxEmailSize = 0\<rparr>"

definition sampleDb :: "EmailTable \<Rightarrow> Db" where
  "sampleDb rows =
     \<lparr>emails = rows, sessions = (\<lambda>sessId. None),
      syncStatus = (\<lambda>userEmail. \<lparr>syncInProgress = False, lastSync = None, statusTotalEmails = 0,
                                  statusOptions = None, statusError = None\<rparr>)\<rparr>"

definition sampleEnv :: "int \<Rightarrow> string \<Rightarrow> string list \<Rightarrow> (nat \<Rightarrow> BatchFault option) \<Rightarrow> SyncEnv" where
  "sampleEnv now sessId ids faults =
     \<lparr>clock = now, startClock = now, finishedAt = now + 2000,
      extractedAt = (\<lambda>messageId. now + 500), syncedAt = (\<lambda>messageId. now + 1000),
      calendarBack = (\<lambda>range now fresh. fresh - 604800000),
      freshSessionId = sessId, listing = Inr ids,
      getMessage = (\<lambda>messageId. Fetched \<lparr>metadata = sampleEmail messageId 1699990000000,
                                          dateHeaderValid = True\<rparr>),
      batchFault = faults\<rparr>"

text \<open>An analyzed message of the given size with the given recommendation.\<close>

definition sampleData :: "string \<Rightarrow> int \<Rightarrow> int EmailData" where
  "sampleData messageId bytes =
     \<lparr>dataId = units messageId, dataThreadId = units messageId, dataSubject = units ''Hello'',
      dataFrom = units ''A <a@b.c>'', dataTo = units ''me@b.c'',
      dataDate = units ''2023-11-14T10:00:00.000Z'', dataSize = bytes, dataLabels = [units ''INBOX''],
      dataSnippet = [], dataHasAttachments = False, attachmentSizes = []\<rparr>"

definition sampleAnalysis :: "string \<Rightarrow> int \<Rightarrow> string \<Rightarrow> int Analysis" where
  "sampleAnalysis messageId bytes recommendation =
     \<lparr>analysisProps = [(units ''emailId'', JStr (units messageId)),
                       (units ''category'', JStr (units ''personal'')),
                       (units ''cleanupRecommendation'', JStr (units recommendation)),
                       (units ''reasoning'', JStr (units ''Because'')),
                       (units ''confidence'', JStr (units ''high''))],
      originalEmail = sampleData messageId bytes\<rparr>"

text \<open>
  The value of \<open>JSON.parse\<close> on two answers: an array with one entry whose \<open>id\<close> is 2,
  and the same array with a second entry \<open>null\<close>; any other text stands for an answer
  that is no JSON.
\<close>

definition spamEntry :: json where
  "spamEntry = JObj [(units ''id'', JNum 2), (units ''category'', JStr (units ''spam''))]"

definition sampleParse :: "jsString \<Rightarrow> json option" where
  \<open>sampleParse s =
     (if s = units ''[{"id":2,"category":"spam"}]'' then Some (JArr [spamEntry])
      else if s = units ''[{"id":2,"category":"spam"},null]'' then Some (JArr [spamEntry, JNull])
      else None)\<close>

section \<open>Local classifier, noreply senders and the routing to AI\<close>

lemma startsWith_append: "startsWith s (a @ b) \<Longrightarrow> startsWith s a"
  by (induction s a rule: startsWith.induct) auto

lemma strIncludes_append: "strIncludes s (a @ b) \<Longrightarrow> strIncludes s a"
proof (induction s)
  case Nil
  then show ?case by simp
next
  case (Cons c cs)
  then show ?case by (auto dest: startsWith_append)
qed

lemma limited_time_offer: "units ''limited time offer'' = units ''limited time'' @ units '' offer''"
  by (simp add: units_def)

text \<open>A message that passes \<open>canClassifyWithoutAI\<close> has a newsletter or promotional keyword.\<close>

lemma canClassify_has_keyword:
  assumes "canClassifyWithoutAI lower m"
  shows "newsletterIndicators (lower (subject (rowData m))) (lower f) (lower (senderEmail (rowData m)))
         \<or> promotionalIndicators (lower (subject (rowData m)))"
proof -
  have "strIncludes (lower (subject (rowData m))) (units ''limited time'')"
    if "strIncludes (lower (subject (rowData m))) (units ''limited time offer'')"
    using that unfolding limited_time_offer by (rule strIncludes_append)
  with assms show ?thesis
    unfolding canClassifyWithoutAI_def newsletterIndicators_def promotionalIndicators_def Let_def
    by blast
qed

text \<open>
  C8, as the specification states it, fails. A noreply sender whose subject carries a
  promotional keyword is classified locally as promotional; and whether a stored message
  goes to AI does not follow the category either: that message is still queued for AI,
  while a noreply sender with the subject "Limited time offer" is not.
\<close>

theorem classify_noreply_counterexample:
  "noreplySender asciiLower (units ''noreply@shop.example'')
   \<and> classifyEmail asciiLower (units ''Summer sale'') (units ''Shop <noreply@shop.example>'')
         (units ''noreply@shop.example'') = ''promotional''
   \<and> classifyEmail asciiLower (units ''Summer sale'') (units ''Shop <noreply@shop.example>'')
         (units ''noreply@shop.example'') \<noteq> ''unknown''
   \<and> needsAI asciiLower [storedMessage ''Limited time offer'' ''noreply@shop.example''] = []"
  by (simp add: noreplySender_def classifyEmail_def newsletterIndicators_def
      promotionalIndicators_def socialIndicators_def asciiLower_def units_def Let_def
      needsAI_def canClassifyWithoutAI_def storedMessage_def sampleEmail_def)

text \<open>
  C8, amended. The local classifier has no test for noreply senders and treats them as
  any other sender: for every input it returns \<open>unknown\<close> exactly when none of its
  newsletter, promotional and social keyword tests matches the lower-cased subject, From
  field and sender address. The hybrid analysis queues a stored message for AI exactly
  when \<open>canClassifyWithoutAI\<close> rejects it, whatever its category; and every message for
  which the local classifier returns \<open>unknown\<close> is rejected by \<open>canClassifyWithoutAI\<close>,
  hence queued for AI. This holds for whatever the runtime's \<open>toLowerCase\<close> is.
\<close>

theorem classify_unknown_routed_to_ai:
  "((classifyEmail lower s f e = ''unknown'') =
       (\<not> newsletterIndicators (lower s) (lower f) (lower e)
        \<and> \<not> promotionalIndicators (lower s)
        \<and> \<not> socialIndicators (lower f) (lower e)))
   \<and> (classifyEmail lower (subject (rowData m)) f (senderEmail (rowData m)) = ''unknown''
        \<longrightarrow> \<not> canClassifyWithoutAI lower m)
   \<and> (m \<in> set (needsAI lower rows) \<longleftrightarrow> m \<in> set rows \<and> \<not> canClassifyWithoutAI lower m)"
proof (intro conjI impI)
  show "(classifyEmail lower s f e = ''unknown'') =
       (\<not> newsletterIndicators (lower s) (lower f) (lower e)
        \<and> \<not> promotionalIndicators (lower s)
        \<and> \<not> socialIndicators (lower f) (lower e))"
    by (simp add: classifyEmail_def Let_def)
  show "\<not> canClassifyWithoutAI lower m"
    if "classifyEmail lower (subject (rowData m)) f (senderEmail (rowData m)) = ''unknown''"
  proof
    assume "canClassifyWithoutAI lower m"
    from canClassify_has_keyword [OF this, of f] that show False
      by (auto simp: classifyEmail_def Let_def split: if_splits)
  qed
  show "m \<in> set (needsAI lower rows) \<longleftrightarrow> m \<in> set rows \<and> \<not> canClassifyWithoutAI lower m"
    by (simp add: needsAI_def)
qed

text \<open>
  A bank's noreply address with a neutral subject: classified \<open>unknown\<close>, rejected by
  \<open>canClassifyWithoutAI\<close> and queued for AI.
\<close>

theorem classify_unknown_routed_to_ai_witness:
  "noreplySender asciiLower (senderEmail (rowData (storedMessage ''Your statement is ready'' ''noreply@bank.example'')))
   \<and> classifyEmail asciiLower
        (subject (rowData (storedMessage ''Your statement is ready'' ''noreply@bank.example'')))
        (units ''Bank <noreply@bank.example>'')
        (senderEmail (rowData (storedMessage ''Your statement is ready'' ''noreply@bank.example'')))
       = ''unknown''
   \<and> \<not> canClassifyWithoutAI asciiLower (storedMessage ''Your statement is ready'' ''noreply@bank.example'')
   \<and> storedMessage ''Your statement is ready'' ''noreply@bank.example''
       \<in> set (needsAI asciiLower [storedMessage ''Your statement is ready'' ''noreply@bank.example''])"
proof -
  let ?m = "storedMessage ''Your statement is ready'' ''noreply@bank.example''"
  let ?f = "units ''Bank <noreply@bank.example>''"
  have nr: "noreplySender asciiLower (senderEmail (rowData ?m))"
    by (simp add: noreplySender_def asciiLower_def units_def storedMessage_def sampleEmail_def)
  have n: "\<not> newsletterIndicators (asciiLower (subject (rowData ?m))) (asciiLower ?f)
              (asciiLower (senderEmail (rowData ?m)))"
    by (simp add: newsletterIndicators_def asciiLower_def units_def storedMessage_def sampleEmail_def)
  have p: "\<not> promotionalIndicators (asciiLower (subject (rowData ?m)))"
    by (simp add: promotionalIndicators_def asciiLower_def units_def storedMessage_def sampleEmail_def)
  have so: "\<not> socialIndicators (asciiLower ?f) (asciiLower (senderEmail (rowData ?m)))"
    by (simp add: socialIndicators_def asciiLower_def units_def storedMessage_def sampleEmail_def)
  note inst = classify_unknown_routed_to_ai [of asciiLower "subject (rowData ?m)" ?f
      "senderEmail (rowData ?m)" ?m "[?m]"]
  from inst n p so have u: "classifyEmail asciiLower (subject (rowData ?m)) ?f (senderEmail (rowData ?m))
       = ''unknown''"
    by blast
  with inst have c: "\<not> canClassifyWithoutAI asciiLower ?m" by blast
  with inst have q: "?m \<in> set (needsAI asciiLower [?m])" by simp
  from nr u c q show ?thesis by blast
qed


section \<open>Rate limiter admission\<close>

lemma filter_length_mono:
  "(\<And>x. x \<in> set xs \<Longrightarrow> P x \<Longrightarrow> Q x) \<Longrightarrow> length (filter P xs) \<le> length (filter Q xs)"
  by (induction xs) auto

lemma timerDelay_nonneg: "0 \<le> timerDelay ms"
  by (simp add: timerDelay_def)

text \<open>
  One call keeps the window bound, for \<open>maxRequests \<ge> 1\<close> and a window whose timer
  delay is within the timer's range. \<open>tr\<close> is the trace recorded so far and \<open>c\<close> the
  clock at the end of the previous call; the stored list agrees with the trace on every
  window that ends at \<open>c\<close> or later. The distance to the previous timestamp is kept as
  well when it is still in the filtered list, or when \<open>minDelayMs \<le> windowMs\<close>.
\<close>

lemma waitIfNeeded_step:
  assumes cfg: "config rl = cfg"
    and mx: "1 \<le> maxRequests cfg"
    and tm: "windowMs cfg + 100 \<le> 2147483647"
    and bound: "\<forall>t\<in>set tr. t \<le> c"
    and lst: "tr \<noteq> [] \<longrightarrow> last tr = c"
    and sync: "\<forall>n\<ge>c. filter (\<lambda>t. n - t < windowMs cfg) (requests rl)
                      = filter (\<lambda>t. n - t < windowMs cfg) tr"
    and win: "\<forall>s. int (length (filter (\<lambda>t. s \<le> t \<and> t < s + windowMs cfg) tr)) \<le> maxRequests cfg"
    and now: "c \<le> now"
    and res: "waitIfNeeded now lag rl = (T, rl')"
  shows "now \<le> T" and "config rl' = cfg"
    and "\<forall>n\<ge>T. filter (\<lambda>t. n - t < windowMs cfg) (requests rl')
                      = filter (\<lambda>t. n - t < windowMs cfg) (tr @ [T])"
    and "\<forall>s. int (length (filter (\<lambda>t. s \<le> t \<and> t < s + windowMs cfg) (tr @ [T])))
                      \<le> maxRequests cfg"
    and "minDelayMs cfg \<le> windowMs cfg \<Longrightarrow> minDelayMs cfg \<le> 2147483647 \<Longrightarrow> tr \<noteq> []
           \<Longrightarrow> minDelayMs cfg \<le> T - c"
proof -
  let ?w = "windowMs cfg"
  define F where "F = filter (\<lambda>t. now - t < ?w) (requests rl)"
  have F_tr: "F = filter (\<lambda>t. now - t < ?w) tr"
    using sync now by (simp add: F_def)
  have F_sub: "set F \<subseteq> set tr" by (auto simp: F_tr)
  have F_le: "int (length F) \<le> maxRequests cfg"
  proof -
    have "filter (\<lambda>t. now - ?w + 1 \<le> t \<and> t < now - ?w + 1 + ?w) tr = F"
      unfolding F_tr using bound now by (intro filter_cong) auto
    with win [rule_format, of "now - ?w + 1"] show ?thesis by simp
  qed
  have F_ne: "maxRequests cfg \<le> int (length F) \<Longrightarrow> F \<noteq> []"
    using mx by auto
  define s1 where "s1 = windowWait cfg now F"
  define s2 where "s2 = minDelayWait cfg now F"
  have s1_ge: "0 \<le> s1"
    by (simp add: s1_def windowWait_def timerDelay_nonneg)
  have s2_ge: "0 \<le> s2"
    by (simp add: s2_def minDelayWait_def Let_def timerDelay_nonneg)
  have T: "T = now + s1 + s2 + int lag" and rl': "rl' = rl\<lparr>requests := F @ [T]\<rparr>"
    using res by (auto simp: waitIfNeeded_def Let_def cfg F_def [symmetric] s1_def s2_def)
  show T_ge: "now \<le> T" using s1_ge s2_ge by (simp add: T)
  show "config rl' = cfg" by (simp add: rl' cfg)
  show "\<forall>n\<ge>T. filter (\<lambda>t. n - t < ?w) (requests rl') = filter (\<lambda>t. n - t < ?w) (tr @ [T])"
  proof (intro allI impI)
    fix n assume "T \<le> n"
    then have "now \<le> n" using T_ge by simp
    then have "filter (\<lambda>t. n - t < ?w) F = filter (\<lambda>t. n - t < ?w) tr"
      unfolding F_tr by (auto intro: filter_cong)
    then show "filter (\<lambda>t. n - t < ?w) (requests rl') = filter (\<lambda>t. n - t < ?w) (tr @ [T])"
      by (simp add: rl')
  qed
  have G_lt: "int (length (filter (\<lambda>t. T - t < ?w) tr)) < maxRequests cfg"
  proof -
    have G_F: "filter (\<lambda>t. T - t < ?w) tr = filter (\<lambda>t. T - t < ?w) F"
      unfolding F_tr using T_ge by (auto intro: filter_cong)
    show ?thesis
    proof (cases "maxRequests cfg \<le> int (length F)")
      case False
      have "length (filter (\<lambda>t. T - t < ?w) F) \<le> length F" by simp
      with False show ?thesis unfolding G_F by linarith
    next
      case True
      then have ne: "F \<noteq> []" by (rule F_ne)
      define oldest where "oldest = Min (set F)"
      have old_in: "oldest \<in> set F" unfolding oldest_def using ne by (intro Min_in) auto
      then have lt: "now - oldest < ?w" by (simp add: F_tr)
      have "oldest \<le> now" using old_in F_sub bound now by force
      with lt tm have rng: "1 \<le> windowWaitTime cfg now F" "windowWaitTime cfg now F \<le> 2147483647"
        by (simp_all add: windowWaitTime_def oldest_def [symmetric])
      then have "s1 = ?w - (now - oldest) + 100"
        using True ne by (simp add: s1_def windowWait_def timerDelay_def windowWaitTime_def oldest_def)
      then have "oldest + ?w + 100 \<le> T" using s2_ge by (simp add: T)
      then have "\<not> (T - oldest < ?w)" by simp
      with old_in have "length (filter (\<lambda>t. T - t < ?w) F) < length F"
        by (rule length_filter_less)
      with F_le show ?thesis unfolding G_F by linarith
    qed
  qed
  show "\<forall>s. int (length (filter (\<lambda>t. s \<le> t \<and> t < s + ?w) (tr @ [T]))) \<le> maxRequests cfg"
  proof
    fix s
    show "int (length (filter (\<lambda>t. s \<le> t \<and> t < s + ?w) (tr @ [T]))) \<le> maxRequests cfg"
    proof (cases "s \<le> T \<and> T < s + ?w")
      case False
      then show ?thesis using win [rule_format, of s] by auto
    next
      case True
      have "length (filter (\<lambda>t. s \<le> t \<and> t < s + ?w) tr) \<le> length (filter (\<lambda>t. T - t < ?w) tr)"
        using True by (intro filter_length_mono) auto
      with G_lt True show ?thesis by simp
    qed
  qed
  show "minDelayMs cfg \<le> T - c"
    if dl: "minDelayMs cfg \<le> windowMs cfg" and dm: "minDelayMs cfg \<le> 2147483647" and ne: "tr \<noteq> []"
  proof -
    from lst ne have L: "last tr = c" by simp
    have c_in: "c \<in> set tr" using ne L last_in_set by metis
    show ?thesis
    proof (cases "now - c < ?w")
      case True
      then have cF: "c \<in> set F" using c_in by (simp add: F_tr)
      have "Max (set F) = c" using cF F_sub bound by (intro Max_eqI) auto
      then have "s2 = (if now - c < minDelayMs cfg then timerDelay (minDelayMs cfg - (now - c)) else 0)"
        using cF by (auto simp: s2_def minDelayWait_def Let_def)
      moreover have "timerDelay (minDelayMs cfg - (now - c)) = minDelayMs cfg - (now - c)"
        if "now - c < minDelayMs cfg"
        using that dm now by (simp add: timerDelay_def)
      ultimately show ?thesis using s1_ge now by (auto simp: T split: if_splits)
    next
      case False
      then show ?thesis using dl T_ge by simp
    qed
  qed
qed

text \<open>
  What the limiter does guarantee: with \<open>maxRequests \<ge> 1\<close> and a window within the
  timer's range, no half-open interval of length \<open>windowMs\<close> holds more than
  \<open>maxRequests\<close> recorded timestamps; and when also \<open>minDelayMs \<le> windowMs\<close>,
  consecutive timestamps are at least \<open>minDelayMs\<close> apart.
\<close>

lemma runCalls_invariant:
  assumes "config rl = cfg" "1 \<le> maxRequests cfg" "windowMs cfg + 100 \<le> 2147483647"
    and "\<forall>t\<in>set tr. t \<le> c" "tr \<noteq> [] \<longrightarrow> last tr = c"
    and "\<forall>n\<ge>c. filter (\<lambda>t. n - t < windowMs cfg) (requests rl)
                      = filter (\<lambda>t. n - t < windowMs cfg) tr"
    and "\<forall>s. int (length (filter (\<lambda>t. s \<le> t \<and> t < s + windowMs cfg) tr)) \<le> maxRequests cfg"
    and "minDelayMs cfg \<le> windowMs cfg \<longrightarrow> successively (\<lambda>a b. minDelayMs cfg \<le> b - a) tr"
  shows "length (fst (runCalls c calls rl)) = length calls
           \<and> (\<forall>s. int (length (filter (\<lambda>t. s \<le> t \<and> t < s + windowMs cfg)
                                  (tr @ fst (runCalls c calls rl)))) \<le> maxRequests cfg)
           \<and> (minDelayMs cfg \<le> windowMs cfg
                \<longrightarrow> successively (\<lambda>a b. minDelayMs cfg \<le> b - a) (tr @ fst (runCalls c calls rl)))"
  using assms
proof (induction calls arbitrary: rl tr c)
  case Nil
  then show ?case by simp
next
  case (Cons call calls)
  obtain gap lag where call: "call = (gap, lag)" by (cases call)
  obtain T rl' where st: "waitIfNeeded (c + int gap) lag rl = (T, rl')"
    by (cases "waitIfNeeded (c + int gap) lag rl")
  have le: "c \<le> c + int gap" by simp
  note step = waitIfNeeded_step [OF Cons.prems(1-3) Cons.prems(4-7) le st]
  have b': "\<forall>t\<in>set (tr @ [T]). t \<le> T" using Cons.prems(4) step(1) by auto
  have l': "tr @ [T] \<noteq> [] \<longrightarrow> last (tr @ [T]) = T" by simp
  have dw: "minDelayMs cfg \<le> 2147483647" if "minDelayMs cfg \<le> windowMs cfg"
    using that Cons.prems(3) by simp
  have spc': "minDelayMs cfg \<le> windowMs cfg
                \<longrightarrow> successively (\<lambda>a b. minDelayMs cfg \<le> b - a) (tr @ [T])"
  proof
    assume dl: "minDelayMs cfg \<le> windowMs cfg"
    show "successively (\<lambda>a b. minDelayMs cfg \<le> b - a) (tr @ [T])"
    proof (cases "tr = []")
      case True
      then show ?thesis by simp
    next
      case False
      from step(5) [OF dl dw [OF dl] False] Cons.prems(5,8) dl False
      show ?thesis by (simp add: successively_append_iff)
    qed
  qed
  from Cons.IH [OF step(2) Cons.prems(2,3) b' l' step(3) step(4) spc']
  have "length (fst (runCalls T calls rl')) = length calls
           \<and> (\<forall>s. int (length (filter (\<lambda>t. s \<le> t \<and> t < s + windowMs cfg)
                                  ((tr @ [T]) @ fst (runCalls T calls rl')))) \<le> maxRequests cfg)
           \<and> (minDelayMs cfg \<le> windowMs cfg
                \<longrightarrow> successively (\<lambda>a b. minDelayMs cfg \<le> b - a) ((tr @ [T]) @ fst (runCalls T calls rl')))"
    .
  then show ?case
    using st by (simp add: call split_beta)
qed

lemma rate_limiter_bounds:
  assumes "1 \<le> maxRequests cfg" and "windowMs cfg + 100 \<le> 2147483647"
  shows "length (fst (runCalls c0 calls \<lparr>requests = [], config = cfg\<rparr>)) = length calls"
    and "int (length (filter (\<lambda>t. s \<le> t \<and> t < s + windowMs cfg)
                 (fst (runCalls c0 calls \<lparr>requests = [], config = cfg\<rparr>)))) \<le> maxRequests cfg"
    and "minDelayMs cfg \<le> windowMs cfg \<Longrightarrow>
           Suc i < length calls \<Longrightarrow>
           minDelayMs cfg \<le> fst (runCalls c0 calls \<lparr>requests = [], config = cfg\<rparr>) ! Suc i
                            - fst (runCalls c0 calls \<lparr>requests = [], config = cfg\<rparr>) ! i"
proof -
  have inv: "length (fst (runCalls c0 calls \<lparr>requests = [], config = cfg\<rparr>)) = length calls
           \<and> (\<forall>s. int (length (filter (\<lambda>t. s \<le> t \<and> t < s + windowMs cfg)
                   ([] @ fst (runCalls c0 calls \<lparr>requests = [], config = cfg\<rparr>)))) \<le> maxRequests cfg)
           \<and> (minDelayMs cfg \<le> windowMs cfg
                \<longrightarrow> successively (\<lambda>a b. minDelayMs cfg \<le> b - a)
                      ([] @ fst (runCalls c0 calls \<lparr>requests = [], config = cfg\<rparr>)))"
    using assms by (intro runCalls_invariant) auto
  then show len: "length (fst (runCalls c0 calls \<lparr>requests = [], config = cfg\<rparr>)) = length calls"
    by blast
  from inv show "int (length (filter (\<lambda>t. s \<le> t \<and> t < s + windowMs cfg)
                 (fst (runCalls c0 calls \<lparr>requests = [], config = cfg\<rparr>)))) \<le> maxRequests cfg"
    by simp
  show "minDelayMs cfg \<le> fst (runCalls c0 calls \<lparr>requests = [], config = cfg\<rparr>) ! Suc i
                            - fst (runCalls c0 calls \<lparr>requests = [], config = cfg\<rparr>) ! i"
    if "minDelayMs cfg \<le> windowMs cfg" "Suc i < length calls"
    using inv that len by (simp add: successively_conv_nth)
qed

text \<open>
  C2. The specification is right that consecutive recorded calls are meant to be at least
  \<open>minDelayMs\<close> apart (the source says so twice), and the code breaks it: the list is
  filtered to the window before the minimum-delay block reads it, so once the latest
  timestamp has left the window nothing is left to keep a distance from. For the
  configuration \<open>{maxRequests: 5, windowMs: 10, minDelayMs: 1000}\<close>, a call at time 0
  and a call entered at time 10 are recorded at 0 and 10.
\<close>

theorem rate_limiter_min_delay_violated:
  "runCalls 0 [(0, 0), (10, 0)]
      \<lparr>requests = [], config = \<lparr>maxRequests = 5, windowMs = 10, minDelayMs = 1000\<rparr>\<rparr>
     = ([0, 10],
          \<lparr>requests = [10], config = \<lparr>maxRequests = 5, windowMs = 10, minDelayMs = 1000\<rparr>\<rparr>)
   \<and> [0, 10 :: int] ! Suc 0 - [0, 10] ! 0
       < minDelayMs \<lparr>maxRequests = 5, windowMs = 10, minDelayMs = 1000\<rparr>"
  by (simp add: waitIfNeeded_def windowWait_def minDelayWait_def Let_def)


section \<open>Orphan cleanup stays inside the sync window\<close>

text \<open>
  C4. For a time-bounded sync (start date present) the rows that
  \<open>cleanupEmailsInRange\<close> removes are exactly the user's rows dated within
  \<open>[startDate, endDate]\<close> whose gmailId is not among the processed ids; in particular a
  row dated outside the window is kept even when its id is not in the processed list, and
  the returned count is the number of removed rows. For an unbounded sync (start date
  null) the removed rows are exactly the user's rows whose gmailId is not in the processed
  list, whatever their date.
\<close>

theorem cleanup_range_boundary:
  "set (snd (cleanupEmailsInRange u ids \<lparr>startDate = Some s, endDate = e\<rparr> rows))
     = {r \<in> set rows. \<not> (rowUser r = u \<and> s \<le> date (rowData r) \<and> date (rowData r) \<le> e
                          \<and> gmailId (rowData r) \<notin> set ids)}
   \<and> (\<forall>r \<in> set rows. (date (rowData r) < s \<or> e < date (rowData r))
         \<longrightarrow> r \<in> set (snd (cleanupEmailsInRange u ids \<lparr>startDate = Some s, endDate = e\<rparr> rows)))
   \<and> fst (cleanupEmailsInRange u ids \<lparr>startDate = Some s, endDate = e\<rparr> rows)
       + length (snd (cleanupEmailsInRange u ids \<lparr>startDate = Some s, endDate = e\<rparr> rows))
       = length rows
   \<and> set (snd (cleanupEmailsInRange u ids \<lparr>startDate = None, endDate = e\<rparr> rows))
       = {r \<in> set rows. \<not> (rowUser r = u \<and> gmailId (rowData r) \<notin> set ids)}"
proof -
  let ?b = "\<lparr>startDate = Some s, endDate = e\<rparr>"
  have kept: "set (snd (cleanupEmailsInRange u ids ?b rows))
     = {r \<in> set rows. \<not> (rowUser r = u \<and> s \<le> date (rowData r) \<and> date (rowData r) \<le> e
                          \<and> gmailId (rowData r) \<notin> set ids)}"
    by (auto simp: cleanupEmailsInRange_def deleteMany_def)
  have outside: "\<forall>r \<in> set rows. (date (rowData r) < s \<or> e < date (rowData r))
         \<longrightarrow> r \<in> set (snd (cleanupEmailsInRange u ids ?b rows))"
    unfolding kept by auto
  have count: "fst (cleanupEmailsInRange u ids ?b rows)
       + length (snd (cleanupEmailsInRange u ids ?b rows)) = length rows"
    unfolding cleanupEmailsInRange_def deleteMany_def
    by (simp only: SyncRange.simps option.case fst_conv snd_conv sum_length_filter_compl)
  have full: "set (snd (cleanupEmailsInRange u ids \<lparr>startDate = None, endDate = e\<rparr> rows))
       = {r \<in> set rows. \<not> (rowUser r = u \<and> gmailId (rowData r) \<notin> set ids)}"
    by (auto simp: cleanupEmailsInRange_def deleteMany_def)
  from kept outside count full show ?thesis by blast
qed

text \<open>
  Three orphans of user \<open>u\<close> dated 5, 50 and 500 and the window \<open>[10, 100]\<close>: only the
  one dated 50 goes.
\<close>

theorem cleanup_range_boundary_witness:
  "sampleRow ''u'' ''m1'' 5
     \<in> set [sampleRow ''u'' ''m1'' 5, sampleRow ''u'' ''m2'' 50, sampleRow ''u'' ''m3'' 500]
   \<and> date (rowData (sampleRow ''u'' ''m1'' 5)) < 10
   \<and> sampleRow ''u'' ''m1'' 5
     \<in> set (snd (cleanupEmailsInRange ''u'' [] \<lparr>startDate = Some 10, endDate = 100\<rparr>
         [sampleRow ''u'' ''m1'' 5, sampleRow ''u'' ''m2'' 50, sampleRow ''u'' ''m3'' 500]))
   \<and> fst (cleanupEmailsInRange ''u'' [] \<lparr>startDate = Some 10, endDate = 100\<rparr>
         [sampleRow ''u'' ''m1'' 5, sampleRow ''u'' ''m2'' 50, sampleRow ''u'' ''m3'' 500]) = 1"
proof -
  let ?rows = "[sampleRow ''u'' ''m1'' 5, sampleRow ''u'' ''m2'' 50, sampleRow ''u'' ''m3'' 500]"
  have mem: "sampleRow ''u'' ''m1'' 5 \<in> set ?rows" by simp
  have out: "date (rowData (sampleRow ''u'' ''m1'' 5)) < 10"
    by (simp add: sampleRow_def sampleEmail_def)
  have cnt: "fst (cleanupEmailsInRange ''u'' [] \<lparr>startDate = Some 10, endDate = 100\<rparr> ?rows) = 1"
    by (simp add: cleanupEmailsInRange_def deleteMany_def sampleRow_def sampleEmail_def)
  from cleanup_range_boundary [of "''u''" "[]" 10 100 ?rows] mem out
  have "sampleRow ''u'' ''m1'' 5
      \<in> set (snd (cleanupEmailsInRange ''u'' [] \<lparr>startDate = Some 10, endDate = 100\<rparr> ?rows))"
    by blast
  with mem out cnt show ?thesis by blast
qed

section \<open>Sync engine: the paths of \<open>syncEmails\<close>\<close>

subsection \<open>Database updates, chunks and slices\<close>

lemma emails_updateSyncSession [simp]: "emails (updateSyncSession sid upd db) = emails db"
  by (simp add: updateSyncSession_def)

lemma emails_updateSyncStatus [simp]: "emails (updateSyncStatus u d db) = emails db"
  by (simp add: updateSyncStatus_def)

lemma sessions_updateSyncStatus [simp]: "sessions (updateSyncStatus u d db) = sessions db"
  by (simp add: updateSyncStatus_def)

lemma syncStatus_updateSyncSession [simp]: "syncStatus (updateSyncSession sid upd db) = syncStatus db"
  by (simp add: updateSyncSession_def)

lemma sessions_updateSyncSession:
  "sessions (updateSyncSession sid upd db) sid' =
     (if sid' = sid then map_option (applySessionUpdates upd) (sessions db sid) else sessions db sid')"
  by (simp add: updateSyncSession_def)

lemma processBatch_map_filter:
  "processBatch g x ids = List.map_filter (\<lambda>i. fetched (x i) (g i)) ids"
proof (induction g x ids rule: processBatch.induct)
  case (1 g x ids)
  show ?case
  proof (cases "ids = []")
    case True
    then show ?thesis by (subst processBatch.simps) (simp add: List.map_filter_simps)
  next
    case False
    have "List.map_filter (\<lambda>i. fetched (x i) (g i)) (take 10 ids @ drop 10 ids)
            = List.map_filter (\<lambda>i. fetched (x i) (g i)) (take 10 ids)
              @ List.map_filter (\<lambda>i. fetched (x i) (g i)) (drop 10 ids)"
      by (simp only: map_filter_def filter_append map_append)
    with False 1 show ?thesis
      by (subst processBatch.simps) simp
  qed
qed

lemma concat_slices: "0 < n \<Longrightarrow> concat (slices n xs) = xs"
proof (induction n xs rule: slices.induct)
  case (1 n xs)
  then show ?case by (subst slices.simps) auto
qed

lemma slices_Nil [simp]: "slices n [] = []"
  by (subst slices.simps) simp

lemma slices_eq_Nil: "0 < n \<Longrightarrow> slices n xs = [] \<longleftrightarrow> xs = []"
  by (subst slices.simps) simp

lemma concat_map_filter:
  "concat (map (List.map_filter f) xss) = List.map_filter f (concat xss)"
  by (induction xss) (simp_all add: map_filter_def)

lemma createOrUpdateEmails_append:
  "createOrUpdateEmails u n (xs @ ys) rows = createOrUpdateEmails u n ys (createOrUpdateEmails u n xs rows)"
  by (simp add: createOrUpdateEmails_def)

lemma createOrUpdateEmails_Nil [simp]: "createOrUpdateEmails u n [] rows = rows"
  by (simp add: createOrUpdateEmails_def)

lemma syncBatch_ok:
  assumes "batchFault env bn = None"
  shows "\<exists>st'. syncBatch env u opts sid bn batch st = (None, st')
           \<and> totalProcessed st'
               = totalProcessed st + length (processBatch (getMessage env) (extractedAt env) batch)
           \<and> allProcessedGmailIds st'
               = allProcessedGmailIds st
                 @ map gmailId (processBatch (getMessage env) (extractedAt env) batch)
           \<and> emails (loopDb st')
               = createOrUpdateEmails u (syncedAt env)
                   (processBatch (getMessage env) (extractedAt env) batch) (emails (loopDb st))
           \<and> (sessions (loopDb st) sid \<noteq> None \<longrightarrow> sessions (loopDb st') sid \<noteq> None)"
  using assms by (simp add: syncBatch_def Let_def sessions_updateSyncSession)


subsection \<open>The batch loop\<close>

lemma forBatches_ok:
  assumes "\<forall>j < length bs. batchFault env (b0 + j) = None"
  shows "\<exists>st'. forBatches (syncBatch env u opts sid) b0 bs st = (None, st')
           \<and> totalProcessed st'
               = totalProcessed st + length (concat (map (fetchBatch env) bs))
           \<and> allProcessedGmailIds st'
               = allProcessedGmailIds st @ map gmailId (concat (map (fetchBatch env) bs))
           \<and> emails (loopDb st')
               = createOrUpdateEmails u (syncedAt env) (concat (map (fetchBatch env) bs))
                   (emails (loopDb st))
           \<and> (sessions (loopDb st) sid \<noteq> None \<longrightarrow> sessions (loopDb st') sid \<noteq> None)"
  using assms
proof (induction bs arbitrary: b0 st)
  case Nil
  then show ?case by simp
next
  case (Cons b bs)
  have "batchFault env (b0 + 0) = None" using Cons.prems [rule_format, of 0] by simp
  then have "batchFault env b0 = None" by simp
  from syncBatch_ok [OF this, of u opts sid b st]
  obtain st1 where s1: "syncBatch env u opts sid b0 b st = (None, st1)"
    and t1: "totalProcessed st1 = totalProcessed st + length (fetchBatch env b)"
    and a1: "allProcessedGmailIds st1 = allProcessedGmailIds st @ map gmailId (fetchBatch env b)"
    and e1: "emails (loopDb st1)
               = createOrUpdateEmails u (syncedAt env) (fetchBatch env b) (emails (loopDb st))"
    and d1: "sessions (loopDb st) sid \<noteq> None \<longrightarrow> sessions (loopDb st1) sid \<noteq> None"
    by blast
  have "\<forall>j < length bs. batchFault env (Suc b0 + j) = None"
  proof (intro allI impI)
    fix j assume "j < length bs"
    then have "Suc j < length (b # bs)" by simp
    with Cons.prems have "batchFault env (b0 + Suc j) = None" by blast
    then show "batchFault env (Suc b0 + j) = None" by simp
  qed
  from Cons.IH [OF this, of st1]
  obtain st' where s2: "forBatches (syncBatch env u opts sid) (Suc b0) bs st1 = (None, st')"
    and t2: "totalProcessed st'
               = totalProcessed st1 + length (concat (map (fetchBatch env) bs))"
    and a2: "allProcessedGmailIds st'
               = allProcessedGmailIds st1 @ map gmailId (concat (map (fetchBatch env) bs))"
    and e2: "emails (loopDb st')
               = createOrUpdateEmails u (syncedAt env) (concat (map (fetchBatch env) bs))
                   (emails (loopDb st1))"
    and d2: "sessions (loopDb st1) sid \<noteq> None \<longrightarrow> sessions (loopDb st') sid \<noteq> None"
    by blast
  show ?case
    using s1 s2 t1 t2 a1 a2 e1 e2 d1 d2 by (simp add: createOrUpdateEmails_append)
qed


lemma upsertEmail_ids:
  "map (gmailId \<circ> rowData) (upsertEmail u n e rows) =
     (if gmailId e \<in> set (map (gmailId \<circ> rowData) rows)
      then map (gmailId \<circ> rowData) rows else map (gmailId \<circ> rowData) rows @ [gmailId e])"
proof -
  have "gmailId (updateData e d) = gmailId e" for d by (simp add: updateData_def)
  then have m: "map (gmailId \<circ> rowData)
            (map (\<lambda>r. if gmailId (rowData r) = gmailId e
                     then r\<lparr>rowData := updateData e (rowData r), lastSynced := n (gmailId e)\<rparr> else r) rows)
          = map (gmailId \<circ> rowData) rows"
    by (induction rows) auto
  show ?thesis
  proof (cases "\<exists>r \<in> set rows. gmailId (rowData r) = gmailId e")
    case True
    then have "gmailId e \<in> set (map (gmailId \<circ> rowData) rows)" by force
    with True m show ?thesis by (simp add: upsertEmail_def)
  next
    case False
    then have "gmailId e \<notin> set (map (gmailId \<circ> rowData) rows)" by force
    with False show ?thesis by (simp add: upsertEmail_def)
  qed
qed

lemma createOrUpdateEmails_ids:
  "set (map (gmailId \<circ> rowData) (createOrUpdateEmails u n es rows))
     = set (map (gmailId \<circ> rowData) rows) \<union> gmailId ` set es"
  unfolding createOrUpdateEmails_def
proof (induction es arbitrary: rows)
  case Nil
  then show ?case by simp
next
  case (Cons e es)
  have "set (map (gmailId \<circ> rowData) (upsertEmail u n e rows))
          = set (map (gmailId \<circ> rowData) rows) \<union> {gmailId e}"
    by (auto simp: upsertEmail_ids)
  with Cons.IH [of "upsertEmail u n e rows"] show ?case by auto
qed



subsection \<open>Empty listing and completed run\<close>


lemma fetchBatch_slices:
  "concat (map (fetchBatch env) (slices 100 ids)) = fetchBatch env ids"
proof -
  have "concat (map (fetchBatch env) (slices 100 ids))
          = List.map_filter (\<lambda>i. fetched (extractedAt env i) (getMessage env i)) (concat (slices 100 ids))"
    by (simp add: processBatch_map_filter [abs_def] concat_map_filter)
  then show ?thesis by (simp add: concat_slices processBatch_map_filter)
qed

lemma syncBody_zero:
  assumes "listing env = Inr []"
  shows "syncBody env u opts sid rng db = syncNothing env u sid db"
  using assms by (simp add: syncBody_def)

lemma syncEmails_zero:
  assumes "listing env = Inr []"
  shows "fst (syncEmails env u opts db)
           = Inr \<lparr>success = True, totalEmails = 0, newEmails = 0, deletedEmails = 0,
                  sessionId = None\<rparr>"
    and "map_option sessionStatus (sessions (snd (syncEmails env u opts db)) (freshSessionId env))
           = Some ''completed''"
    and "map_option sessionTotalEmails (sessions (snd (syncEmails env u opts db)) (freshSessionId env))
           = Some (Some 0)"
    and "syncInProgress (syncStatus (snd (syncEmails env u opts db)) u) = False"
    and "emails (snd (syncEmails env u opts db)) = emails db"
  by (simp_all add: syncEmails_def Let_def syncBody_zero [OF assms] syncNothing_def
      sessions_updateSyncSession createSyncSession_def applySessionUpdates_def noUpdates_def
      updateSyncStatus_def applyStatusData_def noData_def)

lemma syncBody_success:
  assumes "listing env = Inr ids" and "ids \<noteq> []" and "\<forall>b. batchFault env b = None"
  shows "fst (syncBody env u opts sid rng db) =
           Inr \<lparr>success = True,
                 totalEmails = length (fetchBatch env ids),
                 newEmails = length (fetchBatch env ids),
                 deletedEmails = fst (cleanupEmailsInRange u (map gmailId (fetchBatch env ids)) rng
                     (createOrUpdateEmails u (syncedAt env) (fetchBatch env ids) (emails db))),
                 sessionId = Some sid\<rparr>"
    and "emails (snd (syncBody env u opts sid rng db))
           = snd (cleanupEmailsInRange u (map gmailId (fetchBatch env ids)) rng
                     (createOrUpdateEmails u (syncedAt env) (fetchBatch env ids) (emails db)))"
    and "sessions db sid \<noteq> None \<longrightarrow> sessions (snd (syncBody env u opts sid rng db)) sid \<noteq> None"
proof -
  let ?db1 = "updateSyncSession sid
                (noUpdates\<lparr>newTotalEmails := Some (length ids),
                           newTotalBatches := Some ((length ids + 99) div 100)\<rparr>) db"
  have "\<forall>j < length (slices 100 ids). batchFault env (1 + j) = None" using assms(3) by simp
  from forBatches_ok [OF this, of u opts sid "\<lparr>totalProcessed = 0, allProcessedGmailIds = [], loopDb = ?db1\<rparr>"]
  obtain st' where r: "syncBatches env u opts sid ids ?db1 = (None, st')"
    and t: "totalProcessed st' = length (fetchBatch env ids)"
    and a: "allProcessedGmailIds st' = map gmailId (fetchBatch env ids)"
    and e: "emails (loopDb st') = createOrUpdateEmails u (syncedAt env) (fetchBatch env ids) (emails db)"
    and s: "sessions ?db1 sid \<noteq> None \<longrightarrow> sessions (loopDb st') sid \<noteq> None"
    unfolding syncBatches_def fetchBatch_slices by auto
  have b: "syncBody env u opts sid rng db = syncFinish env u sid rng st'"
    using assms(1,2) r by (simp add: syncBody_def Let_def)
  show "fst (syncBody env u opts sid rng db) =
           Inr \<lparr>success = True,
                 totalEmails = length (fetchBatch env ids),
                 newEmails = length (fetchBatch env ids),
                 deletedEmails = fst (cleanupEmailsInRange u (map gmailId (fetchBatch env ids)) rng
                     (createOrUpdateEmails u (syncedAt env) (fetchBatch env ids) (emails db))),
                 sessionId = Some sid\<rparr>"
    by (simp add: b syncFinish_def Let_def t a e)
  show "emails (snd (syncBody env u opts sid rng db))
           = snd (cleanupEmailsInRange u (map gmailId (fetchBatch env ids)) rng
                     (createOrUpdateEmails u (syncedAt env) (fetchBatch env ids) (emails db)))"
    by (simp add: b syncFinish_def Let_def t a e)
  show "sessions db sid \<noteq> None \<longrightarrow> sessions (snd (syncBody env u opts sid rng db)) sid \<noteq> None"
    using s by (simp add: b syncFinish_def Let_def sessions_updateSyncSession)
qed

lemma syncEmails_Inr:
  "fst (syncBody env u opts (freshSessionId env)
             (getSyncDateRange (calendarBack env) opts (clock env) (startClock env))
             (updateSyncStatus u
                  (noData\<lparr>dataSyncInProgress := Some True, dataSyncOptions := Some opts,
                          dataErrorMessage := Some None\<rparr>)
                (createSyncSession (freshSessionId env) u opts
                   (getSyncDateRange (calendarBack env) opts (clock env) (startClock env)) db)))
     = Inr result \<Longrightarrow>
   syncEmails env u opts db
     = syncBody env u opts (freshSessionId env)
             (getSyncDateRange (calendarBack env) opts (clock env) (startClock env))
             (updateSyncStatus u
                  (noData\<lparr>dataSyncInProgress := Some True, dataSyncOptions := Some opts,
                          dataErrorMessage := Some None\<rparr>)
                (createSyncSession (freshSessionId env) u opts
                   (getSyncDateRange (calendarBack env) opts (clock env) (startClock env)) db))"
  by (auto simp: syncEmails_def Let_def split: prod.splits sum.splits)

lemma syncEmails_success:
  assumes "listing env = Inr ids" and "ids \<noteq> []" and "\<forall>b. batchFault env b = None"
  shows "fst (syncEmails env u opts db) =
           Inr \<lparr>success = True,
                 totalEmails = length (fetchBatch env ids),
                 newEmails = length (fetchBatch env ids),
                 deletedEmails = fst (cleanupEmailsInRange u (map gmailId (fetchBatch env ids))
                     (getSyncDateRange (calendarBack env) opts (clock env) (startClock env))
                     (createOrUpdateEmails u (syncedAt env) (fetchBatch env ids) (emails db))),
                 sessionId = Some (freshSessionId env)\<rparr>"
    and "emails (snd (syncEmails env u opts db))
           = snd (cleanupEmailsInRange u (map gmailId (fetchBatch env ids))
                     (getSyncDateRange (calendarBack env) opts (clock env) (startClock env))
                     (createOrUpdateEmails u (syncedAt env) (fetchBatch env ids) (emails db)))"
proof -
  let ?rng = "getSyncDateRange (calendarBack env) opts (clock env) (startClock env)"
  let ?db2 = "updateSyncStatus u
                  (noData\<lparr>dataSyncInProgress := Some True, dataSyncOptions := Some opts,
                          dataErrorMessage := Some None\<rparr>)
                (createSyncSession (freshSessionId env) u opts ?rng db)"
  have e2: "emails ?db2 = emails db" by (simp add: createSyncSession_def)
  note b = syncBody_success [OF assms, where u = u and opts = opts and sid = "freshSessionId env"
      and rng = ?rng and db = ?db2, unfolded e2]
  note run = syncEmails_Inr [OF b(1)]
  show "fst (syncEmails env u opts db) =
           Inr \<lparr>success = True,
                 totalEmails = length (fetchBatch env ids),
                 newEmails = length (fetchBatch env ids),
                 deletedEmails = fst (cleanupEmailsInRange u (map gmailId (fetchBatch env ids)) ?rng
                     (createOrUpdateEmails u (syncedAt env) (fetchBatch env ids) (emails db))),
                 sessionId = Some (freshSessionId env)\<rparr>"
    unfolding run by (rule b(1))
  show "emails (snd (syncEmails env u opts db))
           = snd (cleanupEmailsInRange u (map gmailId (fetchBatch env ids)) ?rng
                     (createOrUpdateEmails u (syncedAt env) (fetchBatch env ids) (emails db)))"
    unfolding run by (rule b(2))
qed

section \<open>What a sync run returns\<close>

text \<open>
  C7. A sync run that does not throw is to return the processed count, the deleted count
  and the id of the session it created, also when the listing yields no message id. The
  run after the cleanup does (last equation: one listed message, session \<open>s1\<close>). The
  early return for an empty listing marks the session completed with \<open>totalEmails = 0\<close>
  and returns the zero summary, but without the session id: with the same user, options
  and store and an empty listing the result has no \<open>sessionId\<close>.
\<close>

theorem sync_zero_ids_no_session_id:
  "fst (syncEmails (sampleEnv 1700000000000 ''s1'' [] (\<lambda>b. None)) ''me@example.com''
          sampleOptions (sampleDb []))
     = Inr \<lparr>success = True, totalEmails = 0, newEmails = 0, deletedEmails = 0, sessionId = None\<rparr>
   \<and> map_option sessionStatus
         (sessions (snd (syncEmails (sampleEnv 1700000000000 ''s1'' [] (\<lambda>b. None))
                           ''me@example.com'' sampleOptions (sampleDb []))) ''s1'')
       = Some ''completed''
   \<and> map_option sessionTotalEmails
         (sessions (snd (syncEmails (sampleEnv 1700000000000 ''s1'' [] (\<lambda>b. None))
                           ''me@example.com'' sampleOptions (sampleDb []))) ''s1'')
       = Some (Some 0)
   \<and> fst (syncEmails (sampleEnv 1700000000000 ''s1'' [''m1''] (\<lambda>b. None)) ''me@example.com''
            sampleOptions (sampleDb []))
     = Inr \<lparr>success = True, totalEmails = 1, newEmails = 1, deletedEmails = 0,
            sessionId = Some ''s1''\<rparr>"
proof -
  let ?env0 = "sampleEnv 1700000000000 ''s1'' [] (\<lambda>b. None)"
  let ?env1 = "sampleEnv 1700000000000 ''s1'' [''m1''] (\<lambda>b. None)"
  have l0: "listing ?env0 = Inr []" by (simp add: sampleEnv_def)
  have s0: "freshSessionId ?env0 = ''s1''" by (simp add: sampleEnv_def)
  note zero = syncEmails_zero [OF l0, of "''me@example.com''" sampleOptions "sampleDb []", unfolded s0]
  have l1: "listing ?env1 = Inr [''m1'']" by (simp add: sampleEnv_def)
  have f1: "\<forall>b. batchFault ?env1 b = None" by (simp add: sampleEnv_def)
  have fb: "fetchBatch ?env1 [''m1''] = [sampleEmail ''m1'' 1699990000000]"
    by (simp add: processBatch_map_filter map_filter_def sampleEnv_def extractEmailData_def)
  have "fst (syncEmails ?env1 ''me@example.com'' sampleOptions (sampleDb []))
     = Inr \<lparr>success = True, totalEmails = 1, newEmails = 1, deletedEmails = 0,
            sessionId = Some ''s1''\<rparr>"
    unfolding syncEmails_success(1) [OF l1 _ f1, simplified] fb
    by (simp add: sampleEnv_def sampleDb_def sampleOptions_def sampleEmail_def getSyncDateRange_def
        createOrUpdateEmails_def upsertEmail_def cleanupEmailsInRange_def deleteMany_def)
  with zero(1-3) show ?thesis by simp
qed

section \<open>A failing batch\<close>



section \<open>Running the sync twice\<close>

subsection \<open>Upserts and cleanup on the message ids\<close>

lemma cleanup_filter:
  "cleanupEmailsInRange u ids rng rows =
     (length (filter (\<lambda>r. rowUser r = u \<and> inSyncRange rng (date (rowData r))
                           \<and> gmailId (rowData r) \<notin> set ids) rows),
      filter (\<lambda>r. \<not> (rowUser r = u \<and> inSyncRange rng (date (rowData r))
                           \<and> gmailId (rowData r) \<notin> set ids)) rows)"
  by (cases "startDate rng") (simp_all add: cleanupEmailsInRange_def deleteMany_def inSyncRange_def)

lemma gmailId_extractEmailData [simp]: "gmailId (extractEmailData x m) = gmailId (metadata m)"
  by (simp add: extractEmailData_def)

lemma gmailId_fetched:
  "map_option gmailId (fetched x outcome) =
     (case outcome of Fetched m \<Rightarrow> Some (gmailId (metadata m))
      | RateLimited retry \<Rightarrow> map_option (\<lambda>m. gmailId (metadata m)) retry
      | FetchFailed \<Rightarrow> None)"
  by (cases outcome) (simp_all add: option.map_comp comp_def)

lemma gmailId_map_filter:
  "map gmailId (List.map_filter f xs) = List.map_filter (\<lambda>x. map_option gmailId (f x)) xs"
  by (induction xs) (auto simp: List.map_filter_simps split: option.splits)

lemma fetchBatch_ids:
  assumes "getMessage env2 = getMessage env1"
  shows "map gmailId (fetchBatch env2 ids) = map gmailId (fetchBatch env1 ids)"
  unfolding processBatch_map_filter gmailId_map_filter assms gmailId_fetched ..

lemma gmailId_updateData [simp]: "gmailId (updateData e d) = gmailId e"
  by (simp add: updateData_def)

lemma upsertEmail_keys:
  "map (\<lambda>r. (rowUser r, gmailId (rowData r))) (upsertEmail u n e rows) =
     (if gmailId e \<in> set (map (gmailId \<circ> rowData) rows)
      then map (\<lambda>r. (rowUser r, gmailId (rowData r))) rows
      else map (\<lambda>r. (rowUser r, gmailId (rowData r))) rows @ [(u, gmailId e)])"
proof -
  have "gmailId (updateData e d) = gmailId e" for d by (simp add: updateData_def)
  then have m: "map (\<lambda>r. (rowUser r, gmailId (rowData r)))
            (map (\<lambda>r. if gmailId (rowData r) = gmailId e
                     then r\<lparr>rowData := updateData e (rowData r), lastSynced := n (gmailId e)\<rparr> else r) rows)
          = map (\<lambda>r. (rowUser r, gmailId (rowData r))) rows"
    by (induction rows) auto
  show ?thesis
  proof (cases "\<exists>r \<in> set rows. gmailId (rowData r) = gmailId e")
    case True
    then have "gmailId e \<in> set (map (gmailId \<circ> rowData) rows)" by force
    with True m show ?thesis by (simp add: upsertEmail_def)
  next
    case False
    then have "gmailId e \<notin> set (map (gmailId \<circ> rowData) rows)" by force
    with False show ?thesis by (simp add: upsertEmail_def)
  qed
qed

lemma createOrUpdateEmails_keys:
  "gmailId ` set es \<subseteq> set (map (gmailId \<circ> rowData) rows) \<Longrightarrow>
     map (\<lambda>r. (rowUser r, gmailId (rowData r))) (createOrUpdateEmails u n es rows)
       = map (\<lambda>r. (rowUser r, gmailId (rowData r))) rows"
  unfolding createOrUpdateEmails_def
proof (induction es arbitrary: rows)
  case Nil
  show ?case by simp
next
  case (Cons e es)
  have ex: "gmailId e \<in> set (map (gmailId \<circ> rowData) rows)" using Cons.prems by simp
  then have ids: "map (gmailId \<circ> rowData) (upsertEmail u n e rows) = map (gmailId \<circ> rowData) rows"
    by (simp only: upsertEmail_ids if_True)
  have "gmailId ` set es \<subseteq> set (map (gmailId \<circ> rowData) (upsertEmail u n e rows))"
    unfolding ids using Cons.prems by simp
  from Cons.IH [OF this] ex show ?case
    by (simp add: upsertEmail_keys)
qed

lemma createOrUpdateEmails_kept:
  "r \<in> set (createOrUpdateEmails u n es rows) \<Longrightarrow> gmailId (rowData r) \<notin> gmailId ` set es
     \<Longrightarrow> r \<in> set rows"
  unfolding createOrUpdateEmails_def
proof (induction es arbitrary: rows)
  case Nil
  then show ?case by simp
next
  case (Cons e es)
  from Cons.IH [of "upsertEmail u n e rows"] Cons.prems
  have "r \<in> set (upsertEmail u n e rows)" by simp
  moreover have "gmailId (rowData r) \<noteq> gmailId e" using Cons.prems(2) by simp
  ultimately show ?case
    by (auto simp: upsertEmail_def split: if_splits)
qed

lemma upsertEmail_distinct:
  "distinct (map (gmailId \<circ> rowData) rows) \<Longrightarrow>
     distinct (map (gmailId \<circ> rowData) (upsertEmail u n e rows))"
  by (simp only: upsertEmail_ids split: if_splits) simp

lemma createOrUpdateEmails_distinct:
  "distinct (map (gmailId \<circ> rowData) rows) \<Longrightarrow>
     distinct (map (gmailId \<circ> rowData) (createOrUpdateEmails u n es rows))"
  unfolding createOrUpdateEmails_def
  by (induction es arbitrary: rows) (simp_all add: upsertEmail_distinct)

text \<open>One completed pass (upserts, then cleanup) followed by a second one.\<close>

lemma second_pass:
  fixes rows :: EmailTable
  assumes ids: "gmailId ` set E2 = set P" "gmailId ` set E1 = set P"
    and rows1: "rows1 = snd (cleanupEmailsInRange u P rng1 (createOrUpdateEmails u n1 E1 rows))"
    and H: "\<forall>r \<in> set rows. rowUser r = u \<and> gmailId (rowData r) \<notin> set P
              \<and> inSyncRange rng2 (date (rowData r)) \<longrightarrow> inSyncRange rng1 (date (rowData r))"
  shows "fst (cleanupEmailsInRange u P rng2 (createOrUpdateEmails u n2 E2 rows1)) = 0"
    and "map (\<lambda>r. (rowUser r, gmailId (rowData r)))
           (snd (cleanupEmailsInRange u P rng2 (createOrUpdateEmails u n2 E2 rows1)))
         = map (\<lambda>r. (rowUser r, gmailId (rowData r))) rows1"
proof -
  let ?del1 = "\<lambda>r. rowUser r = u \<and> inSyncRange rng1 (date (rowData r)) \<and> gmailId (rowData r) \<notin> set P"
  let ?del2 = "\<lambda>r. rowUser r = u \<and> inSyncRange rng2 (date (rowData r)) \<and> gmailId (rowData r) \<notin> set P"
  let ?T1 = "createOrUpdateEmails u n1 E1 rows"
  let ?T2 = "createOrUpdateEmails u n2 E2 rows1"
  have r1: "rows1 = filter (\<lambda>r. \<not> ?del1 r) ?T1" by (simp add: rows1 cleanup_filter)
  have "set P \<subseteq> set (map (gmailId \<circ> rowData) ?T1)"
    using createOrUpdateEmails_ids [of u n1 E1 rows] ids(2) by blast
  then have sub: "gmailId ` set E2 \<subseteq> set (map (gmailId \<circ> rowData) rows1)"
    unfolding r1 ids(1) by force
  have none: "\<not> ?del2 r" if "r \<in> set ?T2" for r
  proof
    assume d: "?del2 r"
    then have notP: "gmailId (rowData r) \<notin> gmailId ` set E2" using ids(1) by simp
    from createOrUpdateEmails_kept [OF that notP] have in1: "r \<in> set rows1" .
    then have inT1: "r \<in> set ?T1" and nd: "\<not> ?del1 r" unfolding r1 by simp_all
    from d have "gmailId (rowData r) \<notin> gmailId ` set E1" using ids(2) by simp
    from createOrUpdateEmails_kept [OF inT1 this] have "r \<in> set rows" .
    with H d have "inSyncRange rng1 (date (rowData r))" by blast
    with d nd show False by blast
  qed
  then have f0: "filter ?del2 ?T2 = []" and f1: "filter (\<lambda>r. \<not> ?del2 r) ?T2 = ?T2"
    by (simp_all add: filter_empty_conv filter_id_conv)
  show "fst (cleanupEmailsInRange u P rng2 ?T2) = 0"
    unfolding cleanup_filter fst_conv f0 by simp
  show "map (\<lambda>r. (rowUser r, gmailId (rowData r))) (snd (cleanupEmailsInRange u P rng2 ?T2))
         = map (\<lambda>r. (rowUser r, gmailId (rowData r))) rows1"
    unfolding cleanup_filter snd_conv f1 by (rule createOrUpdateEmails_keys [OF sub])
qed

subsection \<open>The second run\<close>

text \<open>
  C9, as stated, fails. The store holds the user's message \<open>m0\<close>, dated 1700000030000,
  which the mailbox no longer has; the mailbox has \<open>m1\<close>. A \<open>7d\<close> sync that starts at
  1700000000000 keeps \<open>m0\<close> (it is dated after the end of that run's window), so the store
  holds \<open>m0\<close> and \<open>m1\<close>. The same sync started again at 1700000060000, on the same mailbox,
  has \<open>m0\<close> inside its window: its cleanup deletes one row and the store holds \<open>m1\<close> only.
\<close>

theorem sync_twice_counterexample:
  "map (gmailId \<circ> rowData)
     (emails (snd (syncEmails (sampleEnv 1700000000000 ''s1'' [''m1''] (\<lambda>b. None)) ''me@example.com''
                     sampleOptions (sampleDb [sampleRow ''me@example.com'' ''m0'' 1700000030000]))))
     = [''m0'', ''m1'']
   \<and> map (gmailId \<circ> rowData)
       (emails (snd (syncEmails (sampleEnv 1700000060000 ''s2'' [''m1''] (\<lambda>b. None)) ''me@example.com''
                       sampleOptions
                       (snd (syncEmails (sampleEnv 1700000000000 ''s1'' [''m1''] (\<lambda>b. None))
                               ''me@example.com'' sampleOptions
                               (sampleDb [sampleRow ''me@example.com'' ''m0'' 1700000030000]))))))
     = [''m1'']
   \<and> fst (syncEmails (sampleEnv 1700000060000 ''s2'' [''m1''] (\<lambda>b. None)) ''me@example.com''
            sampleOptions
            (snd (syncEmails (sampleEnv 1700000000000 ''s1'' [''m1''] (\<lambda>b. None))
                    ''me@example.com'' sampleOptions
                    (sampleDb [sampleRow ''me@example.com'' ''m0'' 1700000030000]))))
     = Inr \<lparr>success = True, totalEmails = 1, newEmails = 1, deletedEmails = 1,
            sessionId = Some ''s2''\<rparr>"
proof -
  let ?env1 = "sampleEnv 1700000000000 ''s1'' [''m1''] (\<lambda>b. None)"
  let ?env2 = "sampleEnv 1700000060000 ''s2'' [''m1''] (\<lambda>b. None)"
  let ?db = "sampleDb [sampleRow ''me@example.com'' ''m0'' 1700000030000]"
  let ?db1 = "snd (syncEmails ?env1 ''me@example.com'' sampleOptions ?db)"
  have l1: "listing ?env1 = Inr [''m1'']" and f1: "\<forall>b. batchFault ?env1 b = None"
    and l2: "listing ?env2 = Inr [''m1'']" and f2: "\<forall>b. batchFault ?env2 b = None"
    by (simp_all add: sampleEnv_def)
  have fb1: "fetchBatch ?env1 [''m1''] = [sampleEmail ''m1'' 1699990000000]"
    and fb2: "fetchBatch ?env2 [''m1''] = [sampleEmail ''m1'' 1699990000000]"
    by (simp_all add: processBatch_map_filter map_filter_def sampleEnv_def extractEmailData_def)
  have e1: "emails ?db1 =
              [sampleRow ''me@example.com'' ''m0'' 1700000030000,
               \<lparr>rowUser = ''me@example.com'', rowData = sampleEmail ''m1'' 1699990000000,
                lastSynced = 1700000001000\<rparr>]"
    unfolding syncEmails_success(2) [OF l1 _ f1, simplified] fb1
    by (simp add: sampleEnv_def sampleDb_def sampleOptions_def sampleEmail_def sampleRow_def
        getSyncDateRange_def createOrUpdateEmails_def upsertEmail_def cleanupEmailsInRange_def
        deleteMany_def)
  have e2: "emails (snd (syncEmails ?env2 ''me@example.com'' sampleOptions ?db1)) =
              [\<lparr>rowUser = ''me@example.com'', rowData = sampleEmail ''m1'' 1699990000000,
                lastSynced = 1700000061000\<rparr>]"
    unfolding syncEmails_success(2) [OF l2 _ f2, simplified] fb2 e1
    by (simp add: sampleEnv_def sampleOptions_def sampleEmail_def sampleRow_def
        getSyncDateRange_def createOrUpdateEmails_def upsertEmail_def cleanupEmailsInRange_def
        deleteMany_def updateData_def written_def)
  have r2: "fst (syncEmails ?env2 ''me@example.com'' sampleOptions ?db1)
     = Inr \<lparr>success = True, totalEmails = 1, newEmails = 1, deletedEmails = 1,
            sessionId = Some ''s2''\<rparr>"
    unfolding syncEmails_success(1) [OF l2 _ f2, simplified] fb2 e1
    by (simp add: sampleEnv_def sampleOptions_def sampleEmail_def sampleRow_def
        getSyncDateRange_def createOrUpdateEmails_def upsertEmail_def cleanupEmailsInRange_def
        deleteMany_def updateData_def written_def)
  show ?thesis
    unfolding e1 e2 r2 by (simp add: sampleRow_def sampleEmail_def)
qed

text \<open>
  C9, amended. Two runs with the same options on the same mailbox (same listing, same
  answer for every message), neither with a failing batch, the second on the store the
  first has left; the clock readings and session ids of the two runs are arbitrary.
  Suppose that every message of the user in the initial store that is not among the
  processed ids and is dated inside the second run's cleanup window is also dated inside
  the first run's (always so for the range \<open>all\<close>, whose window is unbounded). Then the
  second run returns without error, deletes nothing and processes as many messages as
  the first; after it the store has the same rows by owner and gmailId, in the same
  order, as after the first run, so no row was added or removed; and if the gmailIds of
  the initial store are distinct, so are those of the final one.
\<close>

theorem sync_twice_same_messages:
  assumes "listing env1 = Inr messageIds" and "listing env2 = Inr messageIds"
    and "getMessage env2 = getMessage env1"
    and "\<forall>b. batchFault env1 b = None" and "\<forall>b. batchFault env2 b = None"
    and "\<forall>r \<in> set (emails db).
           rowUser r = userEmail
           \<and> gmailId (rowData r) \<notin> set (map gmailId (fetchBatch env1 messageIds))
           \<and> inSyncRange (getSyncDateRange (calendarBack env2) options (clock env2) (startClock env2))
                (date (rowData r))
           \<longrightarrow> inSyncRange (getSyncDateRange (calendarBack env1) options (clock env1) (startClock env1))
                (date (rowData r))"
  shows "(case fst (syncEmails env2 userEmail options (snd (syncEmails env1 userEmail options db))) of
            Inl error \<Rightarrow> False
          | Inr result \<Rightarrow> deletedEmails result = 0
                          \<and> totalEmails result = length (fetchBatch env1 messageIds))
     \<and> map (\<lambda>r. (rowUser r, gmailId (rowData r)))
         (emails (snd (syncEmails env2 userEmail options (snd (syncEmails env1 userEmail options db)))))
       = map (\<lambda>r. (rowUser r, gmailId (rowData r)))
           (emails (snd (syncEmails env1 userEmail options db)))
     \<and> (distinct (map (gmailId \<circ> rowData) (emails db))
          \<longrightarrow> distinct (map (gmailId \<circ> rowData)
                (emails (snd (syncEmails env2 userEmail options
                                (snd (syncEmails env1 userEmail options db)))))))"
proof (cases "messageIds = []")
  case True
  note z1 = syncEmails_zero [OF assms(1) [unfolded True], of userEmail options db]
  note z2 = syncEmails_zero [OF assms(2) [unfolded True], of userEmail options
      "snd (syncEmails env1 userEmail options db)"]
  have "fetchBatch env1 messageIds = []" unfolding True by (subst processBatch.simps) simp
  then show ?thesis by (simp add: z1(5) z2(1) z2(5))
next
  case False
  let ?E1 = "fetchBatch env1 messageIds" and ?E2 = "fetchBatch env2 messageIds"
  let ?P = "map gmailId ?E1"
  let ?rng1 = "getSyncDateRange (calendarBack env1) options (clock env1) (startClock env1)"
  let ?rng2 = "getSyncDateRange (calendarBack env2) options (clock env2) (startClock env2)"
  let ?db1 = "snd (syncEmails env1 userEmail options db)"
  let ?db2 = "snd (syncEmails env2 userEmail options ?db1)"
  have P2: "map gmailId ?E2 = ?P" by (rule fetchBatch_ids [OF assms(3)])
  have len: "length ?E2 = length ?E1" using arg_cong [OF P2, of length] by simp
  note s1 = syncEmails_success [OF assms(1) False assms(4), of userEmail options db]
  note s2 = syncEmails_success [OF assms(2) False assms(5), of userEmail options ?db1, unfolded P2]
  have i2: "gmailId ` set ?E2 = set ?P" using arg_cong [OF P2, of set] by simp
  have i1: "gmailId ` set ?E1 = set ?P" by simp
  note sp = second_pass [OF i2 i1 s1(2) assms(6), where ?n2.0 = "syncedAt env2"]
  have res: "fst (syncEmails env2 userEmail options ?db1)
               = Inr \<lparr>success = True, totalEmails = length ?E1, newEmails = length ?E1,
                      deletedEmails = 0, sessionId = Some (freshSessionId env2)\<rparr>"
    unfolding s2(1) sp(1) len ..
  have keys: "map (\<lambda>r. (rowUser r, gmailId (rowData r))) (emails ?db2)
                = map (\<lambda>r. (rowUser r, gmailId (rowData r))) (emails ?db1)"
    unfolding s2(2) by (rule sp(2))
  have "map (gmailId \<circ> rowData) (emails ?db2) = map (gmailId \<circ> rowData) (emails ?db1)"
    using arg_cong [OF keys, of "map snd"] by (simp add: comp_def)
  moreover have "distinct (map (gmailId \<circ> rowData) (emails ?db1))"
    if "distinct (map (gmailId \<circ> rowData) (emails db))"
    unfolding s1(2) cleanup_filter snd_conv
    by (rule distinct_map_filter) (rule createOrUpdateEmails_distinct [OF that])
  ultimately have "distinct (map (gmailId \<circ> rowData) (emails db))
          \<longrightarrow> distinct (map (gmailId \<circ> rowData) (emails ?db2))" by simp
  with keys show ?thesis unfolding res by simp
qed

text \<open>
  An instance: the stored message \<open>m0\<close> is dated inside the window of both runs, so the
  first run removes it and the second run finds nothing to remove.
\<close>

theorem sync_twice_same_messages_witness:
  "(case fst (syncEmails (sampleEnv 1700000060000 ''s2'' [''m1''] (\<lambda>b. None)) ''me@example.com''
               sampleOptions
               (snd (syncEmails (sampleEnv 1700000000000 ''s1'' [''m1''] (\<lambda>b. None))
                       ''me@example.com'' sampleOptions
                       (sampleDb [sampleRow ''me@example.com'' ''m0'' 1699999000000])))) of
      Inl error \<Rightarrow> False
    | Inr result \<Rightarrow> deletedEmails result = 0 \<and> totalEmails result = 1)
   \<and> map (\<lambda>r. (rowUser r, gmailId (rowData r)))
       (emails (snd (syncEmails (sampleEnv 1700000060000 ''s2'' [''m1''] (\<lambda>b. None)) ''me@example.com''
                       sampleOptions
                       (snd (syncEmails (sampleEnv 1700000000000 ''s1'' [''m1''] (\<lambda>b. None))
                               ''me@example.com'' sampleOptions
                               (sampleDb [sampleRow ''me@example.com'' ''m0'' 1699999000000]))))))
     = map (\<lambda>r. (rowUser r, gmailId (rowData r)))
         (emails (snd (syncEmails (sampleEnv 1700000000000 ''s1'' [''m1''] (\<lambda>b. None))
                         ''me@example.com'' sampleOptions
                         (sampleDb [sampleRow ''me@example.com'' ''m0'' 1699999000000]))))
   \<and> distinct (map (gmailId \<circ> rowData)
       (emails (snd (syncEmails (sampleEnv 1700000060000 ''s2'' [''m1''] (\<lambda>b. None)) ''me@example.com''
                       sampleOptions
                       (snd (syncEmails (sampleEnv 1700000000000 ''s1'' [''m1''] (\<lambda>b. None))
                               ''me@example.com'' sampleOptions
                               (sampleDb [sampleRow ''me@example.com'' ''m0'' 1699999000000])))))))"
proof -
  let ?env1 = "sampleEnv 1700000000000 ''s1'' [''m1''] (\<lambda>b. None)"
  let ?env2 = "sampleEnv 1700000060000 ''s2'' [''m1''] (\<lambda>b. None)"
  let ?db = "sampleDb [sampleRow ''me@example.com'' ''m0'' 1699999000000]"
  have l1: "listing ?env1 = Inr [''m1'']" and l2: "listing ?env2 = Inr [''m1'']"
    and g: "getMessage ?env2 = getMessage ?env1"
    and f1: "\<forall>b. batchFault ?env1 b = None" and f2: "\<forall>b. batchFault ?env2 b = None"
    by (simp_all add: sampleEnv_def)
  have fb: "fetchBatch ?env1 [''m1''] = [sampleEmail ''m1'' 1699990000000]"
    by (simp add: processBatch_map_filter map_filter_def sampleEnv_def extractEmailData_def)
  have h: "\<forall>r \<in> set (emails ?db).
           rowUser r = ''me@example.com''
           \<and> gmailId (rowData r) \<notin> set (map gmailId (fetchBatch ?env1 [''m1'']))
           \<and> inSyncRange (getSyncDateRange (calendarBack ?env2) sampleOptions (clock ?env2) (startClock ?env2))
                (date (rowData r))
           \<longrightarrow> inSyncRange (getSyncDateRange (calendarBack ?env1) sampleOptions (clock ?env1) (startClock ?env1))
                (date (rowData r))"
    by (simp add: sampleDb_def sampleRow_def sampleEmail_def sampleEnv_def sampleOptions_def
        getSyncDateRange_def inSyncRange_def)
  have d: "distinct (map (gmailId \<circ> rowData) (emails ?db))"
    by (simp add: sampleDb_def)
  from sync_twice_same_messages [OF l1 l2 g f1 f2 h] d show ?thesis
    unfolding fb by (simp split: sum.splits)
qed

section \<open>Parsing the classifier's answer\<close>

lemma stripFences_Nil [simp]: "stripFences [] = []"
  by (subst stripFences.simps) simp

lemma startsWith_Cons_neq: "c \<noteq> p \<Longrightarrow> startsWith (c # cs) (p # ps) = False"
  by simp

lemma stripFences_plain:
  assumes "c \<noteq> 96"
    and "\<not> startsWith (c # cs) (10 # backticks)"
  shows "stripFences (c # cs) = c # stripFences cs"
  using assms by (subst stripFences.simps) (auto simp: backticks_def)

lemma stripFences_no_backtick: "96 \<notin> set s \<Longrightarrow> stripFences s = s"
proof (induction s)
  case Nil
  show ?case by simp
next
  case (Cons c cs)
  have "\<not> startsWith (c # cs) (10 # backticks)"
    using Cons.prems by (cases cs) (auto simp: backticks_def)
  with Cons show ?case by (simp add: stripFences_plain)
qed

lemma stripFences_closing: "96 \<notin> set s \<Longrightarrow> stripFences (s @ 10 # backticks) = s"
proof (induction s)
  case Nil
  show ?case by (subst stripFences.simps) (simp add: backticks_def units_def)
next
  case (Cons c cs)
  have "\<not> startsWith ((c # cs) @ 10 # backticks) (10 # backticks)"
    using Cons.prems by (cases cs) (auto simp: backticks_def)
  with Cons show ?case by (simp add: stripFences_plain)
qed

lemma stripFences_fenced:
  assumes "96 \<notin> set body"
  shows "stripFences (backticks @ units ''json'' @ [10] @ body @ [10] @ backticks) = body"
proof -
  have "stripFences (backticks @ units ''json'' @ [10] @ body @ [10] @ backticks)
          = stripFences (body @ 10 # backticks)"
    by (subst stripFences.simps) (simp add: backticks_def units_def)
  then show ?thesis using assms by (simp add: stripFences_closing)
qed

lemma length_collectResults:
  "collectResults parsed i n = Inr results \<Longrightarrow> length results = n"
  by (induction n arbitrary: i results) (auto split: sum.splits)

lemma findById_find:
  "JNull \<notin> set parsed \<Longrightarrow>
     findById n parsed = Inr (find (\<lambda>r. idOf r = Some (JNum (real n))) parsed)"
proof (induction parsed)
  case Nil
  show ?case by simp
next
  case (Cons r rs)
  then have "r \<noteq> JNull" by auto
  then have "hasId n r = Inr (idOf r = Some (JNum (real n)))"
    by (cases r) (simp_all add: idOf_def)
  with Cons show ?case by simp
qed

lemma resultAt_spec: "JNull \<notin> set parsed \<Longrightarrow> resultAt parsed i = Inr (specResultAt parsed i)"
  by (simp add: resultAt_def specResultAt_def findById_find split: option.splits)

lemma collectResults_spec:
  "JNull \<notin> set parsed \<Longrightarrow>
     collectResults parsed i n = Inr (map (specResultAt parsed) [i..<i + n])"
proof (induction n arbitrary: i)
  case 0
  show ?case by simp
next
  case (Suc n)
  have "[i..<i + Suc n] = i # [Suc i..<Suc i + n]" by (simp add: upt_rec)
  with Suc show ?case by (simp add: resultAt_spec)
qed

lemma parse_total:
  assumes "n \<le> 4294967295"
  shows "\<exists>results. parseBatchAnalysisResult jsonParse response n = Inr results \<and> length results = n"
proof (cases "parseAttempt jsonParse response n")
  case (Inl error)
  then show ?thesis using assms by (simp add: parseBatchAnalysisResult_def arrayFill_def)
next
  case (Inr results)
  then have "length results = n"
    using assms
    by (auto simp: parseAttempt_def Let_def arrayFill_def length_collectResults
        split: option.splits json.splits if_splits)
  with Inr show ?thesis by (simp add: parseBatchAnalysisResult_def)
qed

lemma collectResults_raises:
  "i \<le> j \<Longrightarrow> j < i + n \<Longrightarrow> resultAt parsed j = Inl error
     \<Longrightarrow> \<exists>raised. collectResults parsed i n = Inl raised"
proof (induction n arbitrary: i)
  case 0
  then show ?case by simp
next
  case (Suc n)
  show ?case
  proof (cases "j = i")
    case True
    with Suc.prems show ?thesis by simp
  next
    case False
    with Suc.prems have "Suc i \<le> j" and "j < Suc i + n" by simp_all
    from Suc.IH [OF this Suc.prems(3)] show ?thesis by (auto split: sum.splits)
  qed
qed

text \<open>
  C3, as stated, fails in its account of an array answer. The answer is the array of an
  entry with \<open>id\<close> 2 and of \<open>null\<close>, two entries for three expected results. Matching
  by \<open>id == position + 1\<close> gives position 1 the entry with \<open>id\<close> 2; the code gives every
  position the default analysis, because the search for \<open>id\<close> 1 reads \<open>id\<close> from
  \<open>null\<close>, which raises, and the \<open>catch\<close> block answers.
\<close>

theorem parse_batch_counterexample:
  \<open>parseBatchAnalysisResult sampleParse (units ''[{"id":2,"category":"spam"},null]'') 3
     = Inr [getDefaultAnalysis, getDefaultAnalysis, getDefaultAnalysis]
   \<and> specResultAt [spamEntry, JNull] 1 = JObj [(units ''category'', JStr (units ''spam''))]
   \<and> getDefaultAnalysis \<noteq> JObj [(units ''category'', JStr (units ''spam''))]\<close>
proof -
  have clean: \<open>trim (stripFences (units ''[{"id":2,"category":"spam"},null]''))
                 = units ''[{"id":2,"category":"spam"},null]''\<close>
    by (subst stripFences_no_backtick) (simp_all add: units_def trim_def whiteSpace_def)
  have raised: "collectResults [spamEntry, JNull] 0 3 = Inl TypeError"
    by (simp add: numeral_3_eq_3 resultAt_def spamEntry_def getProp_def units_def)
  have parsed: \<open>sampleParse (units ''[{"id":2,"category":"spam"},null]'')
                  = Some (JArr [spamEntry, JNull])\<close>
    by (simp add: sampleParse_def units_def)
  have \<open>parseBatchAnalysisResult sampleParse (units ''[{"id":2,"category":"spam"},null]'') 3
     = Inr (replicate 3 getDefaultAnalysis)\<close>
    unfolding parseBatchAnalysisResult_def parseAttempt_def Let_def clean parsed
    by (simp add: raised arrayFill_def)
  then have \<open>parseBatchAnalysisResult sampleParse (units ''[{"id":2,"category":"spam"},null]'') 3
     = Inr [getDefaultAnalysis, getDefaultAnalysis, getDefaultAnalysis]\<close>
    by (simp add: numeral_3_eq_3)
  moreover have "specResultAt [spamEntry, JNull] 1 = JObj [(units ''category'', JStr (units ''spam''))]"
    by (simp add: specResultAt_def idOf_def spamEntry_def getProp_def withoutId_def units_def)
  moreover have "getDefaultAnalysis \<noteq> JObj [(units ''category'', JStr (units ''spam''))]"
    by (simp add: getDefaultAnalysis_def)
  ultimately show ?thesis by simp
qed

text \<open>
  C3, amended. For every \<open>JSON.parse\<close>, every response string and every expected count
  that an array can have as its length (at most \<open>2\<^sup>3\<^sup>2 - 1\<close>; \<open>Array(n)\<close> raises beyond),
  \<open>parseBatchAnalysisResult\<close> returns, and returns exactly that many results. A response
  wrapped in an opening fence with the label \<open>json\<close> and a closing fence, each on its own
  line, around a body free of backticks is parsed as the body alone. When the cleaned
  response is no JSON, every position gets the default analysis. When it is a JSON value
  that is not an array, every position gets that value. When it is an array with no
  \<open>null\<close> entry, each position gets the entry matched by \<open>id == position + 1\<close>, else the
  entry at the position if there is a truthy one, else the default analysis (each without
  its \<open>id\<close>). When it is an array and the search by \<open>id\<close> for some position meets a
  \<open>null\<close> entry before a match, every position gets the default analysis.
\<close>

theorem parse_batch_total:
  assumes "expectedCount \<le> 4294967295"
  shows "(\<exists>results. parseBatchAnalysisResult jsonParse response expectedCount = Inr results
            \<and> length results = expectedCount)
     \<and> (96 \<notin> set body \<longrightarrow>
          parseBatchAnalysisResult jsonParse
              (backticks @ units ''json'' @ [10] @ body @ [10] @ backticks) expectedCount
            = parseBatchAnalysisResult jsonParse body expectedCount)
     \<and> (jsonParse (trim (stripFences response)) = None \<longrightarrow>
          parseBatchAnalysisResult jsonParse response expectedCount
            = Inr (replicate expectedCount getDefaultAnalysis))
     \<and> (\<forall>parsed. jsonParse (trim (stripFences response)) = Some parsed
            \<and> (\<forall>entries. parsed \<noteq> JArr entries) \<longrightarrow>
          parseBatchAnalysisResult jsonParse response expectedCount
            = Inr (replicate expectedCount parsed))
     \<and> (\<forall>entries. jsonParse (trim (stripFences response)) = Some (JArr entries)
            \<and> JNull \<notin> set entries \<longrightarrow>
          parseBatchAnalysisResult jsonParse response expectedCount
            = Inr (map (specResultAt entries) [0..<expectedCount]))
     \<and> (\<forall>entries i. jsonParse (trim (stripFences response)) = Some (JArr entries)
            \<and> i < expectedCount \<and> findById (i + 1) entries = Inl TypeError \<longrightarrow>
          parseBatchAnalysisResult jsonParse response expectedCount
            = Inr (replicate expectedCount getDefaultAnalysis))"
proof -
  have fenced: "parseBatchAnalysisResult jsonParse
              (backticks @ units ''json'' @ [10] @ body @ [10] @ backticks) expectedCount
            = parseBatchAnalysisResult jsonParse body expectedCount" if "96 \<notin> set body"
    unfolding parseBatchAnalysisResult_def parseAttempt_def stripFences_fenced [OF that]
        stripFences_no_backtick [OF that] ..
  have invalid: "parseBatchAnalysisResult jsonParse response expectedCount
            = Inr (replicate expectedCount getDefaultAnalysis)"
    if "jsonParse (trim (stripFences response)) = None"
    using that assms by (simp add: parseBatchAnalysisResult_def parseAttempt_def arrayFill_def)
  have single: "parseBatchAnalysisResult jsonParse response expectedCount
            = Inr (replicate expectedCount parsed)"
    if "jsonParse (trim (stripFences response)) = Some parsed" and "\<forall>entries. parsed \<noteq> JArr entries"
    for parsed
    using that assms
    by (cases parsed) (simp_all add: parseBatchAnalysisResult_def parseAttempt_def arrayFill_def)
  have array: "parseBatchAnalysisResult jsonParse response expectedCount
            = Inr (map (specResultAt entries) [0..<expectedCount])"
    if "jsonParse (trim (stripFences response)) = Some (JArr entries)" and "JNull \<notin> set entries"
    for entries
    using that(1) assms collectResults_spec [OF that(2), of 0 expectedCount]
    by (simp add: parseBatchAnalysisResult_def parseAttempt_def)
  have null: "parseBatchAnalysisResult jsonParse response expectedCount
            = Inr (replicate expectedCount getDefaultAnalysis)"
    if "jsonParse (trim (stripFences response)) = Some (JArr entries)" and "i < expectedCount"
      and "findById (i + 1) entries = Inl TypeError"
    for entries i
  proof -
    have "resultAt entries i = Inl TypeError" using that(3) by (simp add: resultAt_def)
    from collectResults_raises [OF _ _ this, of 0 expectedCount] that(2)
    obtain raised where "collectResults entries 0 expectedCount = Inl raised" by auto
    with that(1) assms show ?thesis
      by (simp add: parseBatchAnalysisResult_def parseAttempt_def arrayFill_def)
  qed
  from parse_total [OF assms] fenced invalid single array null show ?thesis by blast
qed

text \<open>
  An instance with two expected results: the fenced array of one entry with \<open>id\<close> 2
  gives the entry at both positions (by position, then by \<open>id\<close>), and a truncated object
  gives two default analyses.
\<close>

theorem parse_batch_total_witness:
  \<open>(\<exists>results. parseBatchAnalysisResult sampleParse
        (backticks @ units ''json'' @ [10] @ units ''[{"id":2,"category":"spam"}]'' @ [10] @ backticks)
        2 = Inr results \<and> length results = 2)
   \<and> parseBatchAnalysisResult sampleParse
        (backticks @ units ''json'' @ [10] @ units ''[{"id":2,"category":"spam"}]'' @ [10] @ backticks) 2
      = parseBatchAnalysisResult sampleParse (units ''[{"id":2,"category":"spam"}]'') 2
   \<and> parseBatchAnalysisResult sampleParse (units ''[{"id":2,"category":"spam"}]'') 2
      = Inr [JObj [(units ''category'', JStr (units ''spam''))],
             JObj [(units ''category'', JStr (units ''spam''))]]
   \<and> parseBatchAnalysisResult sampleParse (units ''{"id":2'') 2
      = Inr [getDefaultAnalysis, getDefaultAnalysis]\<close>
proof -
  let ?body = \<open>units ''[{"id":2,"category":"spam"}]''\<close>
  have plain: "96 \<notin> set ?body" by (simp add: units_def)
  have clean: "trim (stripFences ?body) = ?body"
    by (subst stripFences_no_backtick) (simp_all add: units_def trim_def whiteSpace_def)
  have parsed: "sampleParse (trim (stripFences ?body)) = Some (JArr [spamEntry])"
    unfolding clean by (simp add: sampleParse_def)
  have entries: "JNull \<notin> set [spamEntry]" by (simp add: spamEntry_def)
  have spec: "map (specResultAt [spamEntry]) [0..<2]
                = [JObj [(units ''category'', JStr (units ''spam''))],
                   JObj [(units ''category'', JStr (units ''spam''))]]"
    by (simp add: numeral_2_eq_2 specResultAt_def idOf_def spamEntry_def
        getProp_def withoutId_def units_def)
  have clean': \<open>trim (stripFences (units ''{"id":2'')) = units ''{"id":2''\<close>
    by (subst stripFences_no_backtick) (simp_all add: units_def trim_def whiteSpace_def)
  have invalid: \<open>sampleParse (trim (stripFences (units ''{"id":2''))) = None\<close>
    unfolding clean' by (simp add: sampleParse_def units_def)
  have small: "(2::nat) \<le> 4294967295" by simp
  note fenced = parse_batch_total [OF small, of sampleParse
      "backticks @ units ''json'' @ [10] @ ?body @ [10] @ backticks" ?body]
  note unfenced = parse_batch_total [OF small, of sampleParse ?body ?body]
  note broken = parse_batch_total [OF small, of sampleParse \<open>units ''{"id":2''\<close> ?body]
  from fenced have 1: "\<exists>results. parseBatchAnalysisResult sampleParse
        (backticks @ units ''json'' @ [10] @ ?body @ [10] @ backticks) 2 = Inr results
        \<and> length results = 2" by blast
  from fenced plain have 2: "parseBatchAnalysisResult sampleParse
        (backticks @ units ''json'' @ [10] @ ?body @ [10] @ backticks) 2
      = parseBatchAnalysisResult sampleParse ?body 2" by blast
  from unfenced parsed entries
  have "parseBatchAnalysisResult sampleParse ?body 2 = Inr (map (specResultAt [spamEntry]) [0..<2])"
    by blast
  then have 3: "parseBatchAnalysisResult sampleParse ?body 2
      = Inr [JObj [(units ''category'', JStr (units ''spam''))],
             JObj [(units ''category'', JStr (units ''spam''))]]"
    unfolding spec .
  from broken invalid
  have \<open>parseBatchAnalysisResult sampleParse (units ''{"id":2'') 2
          = Inr (replicate 2 getDefaultAnalysis)\<close> by blast
  then have 4: \<open>parseBatchAnalysisResult sampleParse (units ''{"id":2'') 2
          = Inr [getDefaultAnalysis, getDefaultAnalysis]\<close>
    by (simp add: numeral_2_eq_2)
  from 1 2 3 4 show ?thesis by blast
qed

section \<open>The report and its candidate lists\<close>

lemma tally_lists:
  "deletionList (tally jsPlus ex1 ex2 a t)
     = deletionList t @ (if recommends a ''delete'' \<or> recommends a ''archive'' then [candidate a] else [])"
  "keepList (tally jsPlus ex1 ex2 a t)
     = keepList t @ (if recommends a ''keep'' then [candidate a] else [])"
  "savingsSum (tally jsPlus ex1 ex2 a t)
     = (if recommends a ''delete'' \<or> recommends a ''archive''
        then jsPlus (savingsSum t) (dataSize (originalEmail a)) else savingsSum t)"
  "sizeSum (tally jsPlus ex1 ex2 a t) = jsPlus (sizeSum t) (dataSize (originalEmail a))"
  by (auto simp: tally_def Let_def recommends_def strictEquals_def units_def)

lemma fold_tally:
  "deletionList (fold (tally jsPlus ex1 ex2) as t)
     = deletionList t
       @ map candidate (filter (\<lambda>a. recommends a ''delete'' \<or> recommends a ''archive'') as)"
  "keepList (fold (tally jsPlus ex1 ex2) as t)
     = keepList t @ map candidate (filter (\<lambda>a. recommends a ''keep'') as)"
  "savingsSum (fold (tally jsPlus ex1 ex2) as t)
     = foldl jsPlus (savingsSum t)
         (map (\<lambda>a. dataSize (originalEmail a))
            (filter (\<lambda>a. recommends a ''delete'' \<or> recommends a ''archive'') as))"
  "sizeSum (fold (tally jsPlus ex1 ex2) as t)
     = foldl jsPlus (sizeSum t) (map (\<lambda>a. dataSize (originalEmail a)) as)"
  by (induction as arbitrary: t) (simp_all add: tally_lists)

lemma keep_not_delete:
  "recommends a ''keep'' \<Longrightarrow> \<not> (recommends a ''delete'' \<or> recommends a ''archive'')"
  by (auto simp: recommends_def strictEquals_def units_def)

lemma length_three_way:
  "length (filter (\<lambda>a. recommends a ''delete'' \<or> recommends a ''archive'') as)
     + length (filter (\<lambda>a. recommends a ''keep'') as)
   = length (filter (\<lambda>a. recommends a ''delete'' \<or> recommends a ''archive''
                          \<or> recommends a ''keep'') as)"
  by (induction as) (auto dest: keep_not_delete)

text \<open>
  C5, as stated, fails: an analysis whose recommendation is neither \<open>delete\<close>, \<open>archive\<close>
  nor \<open>keep\<close> (here \<open>review\<close>) is counted in \<open>totalEmails\<close> and put on neither list, so
  the two lists together have 0 entries for 1 analyzed message.
\<close>

theorem report_counts_counterexample:
  "summaryTotalEmails (summary (generateReport (0::int) (+) (\<lambda>fromField. fromField) (\<lambda>fromField. fromField)
       (\<lambda>candidates. candidates) (units ''2023-11-14T22:13:20.000Z'')
       [sampleAnalysis ''m1'' 1000 ''review''] () (None :: unit option))) = 1
   \<and> length (deletionCandidates (generateReport (0::int) (+) (\<lambda>fromField. fromField) (\<lambda>fromField. fromField)
       (\<lambda>candidates. candidates) (units ''2023-11-14T22:13:20.000Z'')
       [sampleAnalysis ''m1'' 1000 ''review''] () (None :: unit option)))
     + length (keepCandidates (generateReport (0::int) (+) (\<lambda>fromField. fromField) (\<lambda>fromField. fromField)
       (\<lambda>candidates. candidates) (units ''2023-11-14T22:13:20.000Z'')
       [sampleAnalysis ''m1'' 1000 ''review''] () (None :: unit option))) = 0"
  by (simp add: generateReport_def Let_def tally_lists recommends_def strictEquals_def getProp_def
      sampleAnalysis_def units_def)

text \<open>
  C5, amended. Whatever the runtime's \<open>0\<close> and \<open>+\<close>, the two functions of the From
  field, the clock and the order that the sort leaves the candidates in (a permutation of
  them), the report of \<open>generateReport\<close> has \<open>totalEmails\<close> equal to the number of
  analyses; its two candidate lists together have as many entries as there are analyses
  whose recommendation is exactly \<open>delete\<close>, \<open>archive\<close> or \<open>keep\<close>, which is at most
  \<open>totalEmails\<close>; the two counts of the summary are the lengths of the lists; the
  deletion candidates are the candidates of exactly the analyses recommending \<open>delete\<close> or
  \<open>archive\<close> and the keep candidates those of the analyses recommending \<open>keep\<close>; and
  \<open>potentialSavings\<close> is the sum, taken with the runtime's \<open>+\<close> from \<open>0\<close> in the order of
  the analyses, of the sizes of exactly the messages recommended \<open>delete\<close> or \<open>archive\<close>.
\<close>

theorem report_counts:
  assumes "\<forall>candidates. mset (newestFirst candidates) = mset candidates"
  shows "(let report = generateReport jsZero jsPlus extractSenderEmail extractSenderName newestFirst
                         now analyses cfg tokenUsage;
              discarded = filter (\<lambda>a. recommends a ''delete'' \<or> recommends a ''archive'') analyses;
              kept = filter (\<lambda>a. recommends a ''keep'') analyses
          in summaryTotalEmails (summary report) = length analyses
           \<and> length (deletionCandidates report) + length (keepCandidates report)
               = length (filter (\<lambda>a. recommends a ''delete'' \<or> recommends a ''archive''
                                      \<or> recommends a ''keep'') analyses)
           \<and> length (deletionCandidates report) + length (keepCandidates report)
               \<le> summaryTotalEmails (summary report)
           \<and> summaryDeletionCandidates (summary report) = length (deletionCandidates report)
           \<and> summaryKeepCandidates (summary report) = length (keepCandidates report)
           \<and> mset (deletionCandidates report) = mset (map candidate discarded)
           \<and> mset (keepCandidates report) = mset (map candidate kept)
           \<and> potentialSavings (summary report)
               = foldl jsPlus jsZero (map (\<lambda>a. dataSize (originalEmail a)) discarded))"
proof -
  let ?t = "fold (tally jsPlus extractSenderEmail extractSenderName) analyses
              \<lparr>deletionList = [], keepList = [], senderMap = [], sizeSum = jsZero,
               savingsSum = jsZero\<rparr>"
  let ?discarded = "filter (\<lambda>a. recommends a ''delete'' \<or> recommends a ''archive'') analyses"
  let ?kept = "filter (\<lambda>a. recommends a ''keep'') analyses"
  have len: "length (newestFirst xs) = length xs" for xs
    using assms by (metis size_mset)
  have d: "deletionList ?t = map candidate ?discarded" and k: "keepList ?t = map candidate ?kept"
    and s: "savingsSum ?t = foldl jsPlus jsZero (map (\<lambda>a. dataSize (originalEmail a)) ?discarded)"
    by (simp_all add: fold_tally)
  have three: "length ?discarded + length ?kept
                 = length (filter (\<lambda>a. recommends a ''delete'' \<or> recommends a ''archive''
                                      \<or> recommends a ''keep'') analyses)"
    by (rule length_three_way)
  then have le: "length ?discarded + length ?kept \<le> length analyses"
    by (simp only: length_filter_le)
  show ?thesis
    unfolding generateReport_def Let_def
    using three le by (simp add: d k s len assms)
qed

text \<open>
  An instance with integer sizes: four analyses recommending \<open>delete\<close>, \<open>review\<close>,
  \<open>archive\<close> and \<open>keep\<close> give three candidates and savings of 1000 + 30.
\<close>

theorem report_counts_witness:
  "(let report = generateReport (0::int) (+) (\<lambda>fromField. fromField) (\<lambda>fromField. fromField) rev
                   (units ''2023-11-14T22:13:20.000Z'')
                   [sampleAnalysis ''m1'' 1000 ''delete'', sampleAnalysis ''m2'' 200 ''review'',
                    sampleAnalysis ''m3'' 30 ''archive'', sampleAnalysis ''m4'' 4 ''keep'']
                   () (None :: unit option)
    in summaryTotalEmails (summary report) = 4
     \<and> length (deletionCandidates report) + length (keepCandidates report) = 3
     \<and> potentialSavings (summary report) = 1030)"
proof -
  let ?analyses = "[sampleAnalysis ''m1'' 1000 ''delete'', sampleAnalysis ''m2'' 200 ''review'',
                    sampleAnalysis ''m3'' 30 ''archive'', sampleAnalysis ''m4'' 4 ''keep'']"
  have permutation: "\<forall>candidates. mset (rev candidates) = mset (candidates :: int Candidate list)"
    by simp
  have rec: "recommends (sampleAnalysis messageId bytes recommendation) literal
               \<longleftrightarrow> units recommendation = units literal" for messageId bytes recommendation literal
    by (simp add: recommends_def strictEquals_def getProp_def sampleAnalysis_def units_def)
  have discarded: "filter (\<lambda>a. recommends a ''delete'' \<or> recommends a ''archive'') ?analyses
                     = [sampleAnalysis ''m1'' 1000 ''delete'', sampleAnalysis ''m3'' 30 ''archive'']"
    and counted: "filter (\<lambda>a. recommends a ''delete'' \<or> recommends a ''archive''
                                \<or> recommends a ''keep'') ?analyses
                     = [sampleAnalysis ''m1'' 1000 ''delete'', sampleAnalysis ''m3'' 30 ''archive'',
                        sampleAnalysis ''m4'' 4 ''keep'']"
    by (simp_all add: rec) (simp_all add: units_def)
  have sizes: "dataSize (originalEmail (sampleAnalysis messageId bytes recommendation)) = bytes"
    for messageId bytes recommendation
    by (simp add: sampleAnalysis_def sampleData_def)
  from report_counts [OF permutation, of "0::int" "(+)" "\<lambda>fromField. fromField" "\<lambda>fromField. fromField"
      "units ''2023-11-14T22:13:20.000Z''" ?analyses "()" "None :: unit option"]
  show ?thesis
    unfolding Let_def discarded counted by (simp add: sizes)
qed

end
